theory Spec2Isabelle
  imports Main "HOL-Library.AList" "HOL-Library.Product_Lexorder"
begin

section \<open>Python values used by the parsers\<close>

text \<open>
  The exceptions the modelled methods can raise. A method that raises returns the
  exception as a value; a method that mutates the parser returns the parser it leaves.
\<close>

datatype py_error = KeyError | IndexError | AttributeError | TypeError

text \<open>
  A Python \<open>dict\<close> is an association list with one pair per key, in the order in which
  iteration visits the keys. \<open>d[k]\<close> is \<open>map_of d k\<close> (\<open>None\<close> is the \<open>KeyError\<close>),
  \<open>d[k] = v\<close> is \<open>AList.update k v d\<close>.
\<close>

type_synonym ('k, 'v) dict = "('k \<times> 'v) list"

definition setdefault :: "('k, 'v) dict \<Rightarrow> 'k \<Rightarrow> 'v \<Rightarrow> ('k, 'v) dict" where
  "setdefault d k v = (case map_of d k of None \<Rightarrow> AList.update k v d | Some _ \<Rightarrow> d)"

text \<open>\<open>xs[i]\<close> on a list: a negative index counts from the end, and an index out of range
  raises \<open>IndexError\<close>.\<close>

definition py_index :: "'a list \<Rightarrow> int \<Rightarrow> py_error + 'a" where
  "py_index xs i =
     (let n = int (length xs); k = (if i < 0 then i + n else i)
      in if k < 0 \<or> n \<le> k then Inl IndexError else Inr (xs ! nat k))"

subsection \<open>Strings\<close>

text \<open>
  Strings are Python 2 byte strings: \<open>lower\<close> and \<open>title\<close> change the ASCII letters only
  and count every other byte as uncased.
\<close>

definition ascii_uppercase :: string where
  "ascii_uppercase = ''ABCDEFGHIJKLMNOPQRSTUVWXYZ''"

definition ascii_lowercase :: string where
  "ascii_lowercase = ''abcdefghijklmnopqrstuvwxyz''"

definition punctuation :: string where
  "punctuation = [CHR ''!'', CHR 0x22, CHR ''#'', CHR ''$'', CHR ''%'', CHR ''&'', CHR 0x27,
     CHR ''('', CHR '')'', CHR ''*'', CHR ''+'', CHR '','', CHR ''-'', CHR ''.'', CHR ''/'',
     CHR '':'', CHR '';'', CHR ''<'', CHR ''='', CHR ''>'', CHR ''?'', CHR ''@'', CHR ''['',
     CHR 0x5C, CHR '']'', CHR ''^'', CHR ''_'', CHR 0x60, CHR ''{'', CHR ''|'', CHR ''}'',
     CHR ''~'']"

definition isupper :: "char \<Rightarrow> bool" where
  "isupper c = (c \<in> set ascii_uppercase)"

definition islower :: "char \<Rightarrow> bool" where
  "islower c = (c \<in> set ascii_lowercase)"

definition tolower :: "char \<Rightarrow> char" where
  "tolower c = (case map_of (zip ascii_uppercase ascii_lowercase) c of
                  None \<Rightarrow> c | Some l \<Rightarrow> l)"

definition toupper :: "char \<Rightarrow> char" where
  "toupper c = (case map_of (zip ascii_lowercase ascii_uppercase) c of
                  None \<Rightarrow> c | Some u \<Rightarrow> u)"

definition lower :: "string \<Rightarrow> string" where
  "lower s = map tolower s"

text \<open>\<open>str.title\<close>: a cased character is upper case after an uncased one, lower case after
  a cased one.\<close>

fun title_from :: "bool \<Rightarrow> string \<Rightarrow> string" where
  "title_from previous_is_cased [] = []"
| "title_from previous_is_cased (c # cs) =
     (if islower c then (if previous_is_cased then c else toupper c) # title_from True cs
      else if isupper c then (if previous_is_cased then tolower c else c) # title_from True cs
      else c # title_from False cs)"

definition title :: "string \<Rightarrow> string" where
  "title s = title_from False s"

subsection \<open>OrderedSet\<close>

text \<open>
  Modelled from the spec: the class \<open>OrderedSet\<close> of the module \<open>ordered_set\<close>, which the
  parsers import and which is not among the source files. The spec describes it as an
  append-ordered set that removes duplicates and preserves first-seen order. An ordered
  set is the list of its items, without repetition, in the order of their first insertion;
  \<open>items_set\<close> is the set of that list, and \<open>items\<close> and \<open>order_items\<close> return the list.
\<close>

definition os_add :: "'a list \<Rightarrow> 'a \<Rightarrow> 'a list" where
  "os_add items x = (if x \<in> set items then items else items @ [x])"

definition os_update :: "'a list \<Rightarrow> 'a list \<Rightarrow> 'a list" where
  "os_update items xs = foldl os_add items xs"

definition OrderedSet :: "'a list \<Rightarrow> 'a list" where
  "OrderedSet xs = os_update [] xs"

definition order_items :: "'a list \<Rightarrow> 'a list" where
  "order_items items = items"

section \<open>WiktionaryParser: the store of entries\<close>

text \<open>
  The content under a heading is a list. Its elements are strings (etymologies,
  pronunciations, declined forms) or definition pairs \<open>(definition, lemma)\<close> whose lemma
  may be \<open>None\<close> (parts of speech).
\<close>

datatype item = Str string | Defn string "string option"

type_synonym headings = "(string, item list) dict"
type_synonym lang_entries = "(string, headings) dict"
type_synonym entries = "(string, lang_entries) dict"

text \<open>
  The parser is the state the methods read and write: \<open>self.language\<close> and
  \<open>self.wiktionary_entries\<close>. The language of the parser is a string, as the constructor
  of \<open>LanguageParser\<close> sets it; a language argument is optional, and \<open>verify_language\<close>
  replaces a missing one by the parser's. Words and headings are strings and contents are
  lists, as the docstrings type them.
\<close>

record parser =
  self_language :: string
  wiktionary_entries :: entries

definition verify_language :: "parser \<Rightarrow> string option \<Rightarrow> string" where
  "verify_language p lang = (case lang of None \<Rightarrow> self_language p | Some l \<Rightarrow> l)"

text \<open>\<open>lookup_wiktionary_entry\<close>: \<open>self.wiktionary_entries[word][language]\<close>, or \<open>None\<close> on a
  \<open>KeyError\<close>.\<close>

definition lookup_wiktionary_entry :: "parser \<Rightarrow> string \<Rightarrow> string option \<Rightarrow> headings option" where
  "lookup_wiktionary_entry p word lang =
     (case map_of (wiktionary_entries p) word of
        None \<Rightarrow> None
      | Some e \<Rightarrow> map_of e (verify_language p lang))"

text \<open>\<open>entry_word\<close>: the first of \<open>word\<close>, \<open>word.lower()\<close>, \<open>word.title()\<close> for which
  \<open>self.wiktionary_entries[nuword][language]\<close> raises no \<open>KeyError\<close>; otherwise \<open>word\<close>.\<close>

definition has_entry :: "parser \<Rightarrow> string \<Rightarrow> string \<Rightarrow> bool" where
  "has_entry p language nuword =
     (case map_of (wiktionary_entries p) nuword of
        None \<Rightarrow> False
      | Some e \<Rightarrow> map_of e language \<noteq> None)"

fun entry_word_loop :: "parser \<Rightarrow> string \<Rightarrow> string list \<Rightarrow> string option" where
  "entry_word_loop p language [] = None"
| "entry_word_loop p language (nuword # nuwords) =
     (if has_entry p language nuword then Some nuword
      else entry_word_loop p language nuwords)"

definition entry_word :: "parser \<Rightarrow> string \<Rightarrow> string option \<Rightarrow> string" where
  "entry_word p word lang =
     (let language = verify_language p lang;
          nuwords = [word, lower word, title word]
      in case entry_word_loop p language nuwords of
           Some nuword \<Rightarrow> nuword
         | None \<Rightarrow> word)"

text \<open>
  \<open>lookup_wiktionary_subentry\<close> in its two call shapes: with a word and a language it
  returns the dictionary of headings, with a heading as well the content under it;
  \<open>None\<close> on a \<open>KeyError\<close>.
\<close>

definition lookup_wiktionary_subentry :: "parser \<Rightarrow> string \<Rightarrow> string \<Rightarrow> headings option" where
  "lookup_wiktionary_subentry p word language =
     (case map_of (wiktionary_entries p) word of
        None \<Rightarrow> None
      | Some e \<Rightarrow> map_of e language)"

definition lookup_wiktionary_subentry_heading ::
  "parser \<Rightarrow> string \<Rightarrow> string \<Rightarrow> string \<Rightarrow> item list option" where
  "lookup_wiktionary_subentry_heading p word language heading =
     (case lookup_wiktionary_subentry p word language of
        None \<Rightarrow> None
      | Some hs \<Rightarrow> map_of hs heading)"

text \<open>\<open>self.wiktionary_entries[word][language] = hs\<close>, for a word that has an entry.\<close>

definition set_headings :: "parser \<Rightarrow> string \<Rightarrow> string \<Rightarrow> headings \<Rightarrow> parser" where
  "set_headings p word language hs =
     (case map_of (wiktionary_entries p) word of
        None \<Rightarrow> p
      | Some e \<Rightarrow> p\<lparr>wiktionary_entries :=
          AList.update word (AList.update language hs e) (wiktionary_entries p)\<rparr>)"

text \<open>
  \<open>edit_wiktionary_entry\<close>. \<open>entry\<close> is the stored dictionary of headings itself, so
  \<open>entry.setdefault\<close> writes the store; when the lookup returned \<open>None\<close> the call
  \<open>entry.setdefault\<close> raises \<open>AttributeError\<close> before anything is written. The \<open>try\<close> block
  returns on a \<open>KeyError\<close> of \<open>self.wiktionary_entries[word][language]\<close>; the \<open>else\<close> block
  reads the content under the heading and stores it joined with the new content, without
  repetition. The result is the parser the call leaves and the exception it raised, if any.
\<close>

definition edit_wiktionary_entry ::
  "parser \<Rightarrow> string \<Rightarrow> string option \<Rightarrow> string \<Rightarrow> item list \<Rightarrow> parser \<times> py_error option" where
  "edit_wiktionary_entry p word lang heading content =
     (let language = verify_language p lang
      in case lookup_wiktionary_subentry p word language of
           None \<Rightarrow> (p, Some AttributeError)
         | Some entry \<Rightarrow>
             (let p1 = set_headings p word language (setdefault entry heading [])
              in case lookup_wiktionary_subentry p1 word language of
                   None \<Rightarrow> (p1, None)
                 | Some hs \<Rightarrow>
                     (case map_of (setdefault hs heading []) heading of
                        None \<Rightarrow> (p1, Some KeyError)
                      | Some entry' \<Rightarrow>
                          (set_headings p1 word language
                             (AList.update heading (OrderedSet (entry' @ content))
                                (setdefault hs heading [])),
                           None))))"

section \<open>LanguageParser: lemmas and morphemes\<close>

text \<open>
  What the parser asks of its collaborators, which are not in the source files: the
  entries that \<open>WiktionaryPage(word, language).entries\<close> extracts from the fetched page
  (the headings under the language, or \<open>None\<close> when the page has none for it), and the
  alphabet and the lexicon of a language as \<open>find_alphabet\<close> and \<open>find_lexicon\<close> return
  them from the language tables.
\<close>

record collaborators =
  page_entries :: "string \<Rightarrow> string \<Rightarrow> headings option"
  find_alphabet :: "string \<Rightarrow> string list"
  find_lexicon :: "string \<Rightarrow> string list"

definition PARTS_OF_SPEECH :: "string set" where
  "PARTS_OF_SPEECH = {''Noun'', ''Verb'', ''Adjective'', ''Adverb'', ''Preposition'',
     ''Conjunction'', ''Interjection'', ''Morpheme'', ''Pronoun'', ''Phrase'', ''Numeral'',
     ''Particle'', ''Article'', ''Participle'', ''Prefix'', ''Suffix'', ''Circumfix'',
     ''Interfix'', ''Infix''}"

text \<open>\<open>contains_punct\<close>: some character of \<open>string.punctuation\<close> occurs in the word.\<close>

definition contains_punct :: "string \<Rightarrow> bool" where
  "contains_punct word = list_ex (\<lambda>char. char \<in> set word) punctuation"

text \<open>
  The methods that may fetch a page return their value and the parser they leave.
  \<open>add_wiktionary_entry\<close> stores the entries of the page under the entry word and returns
  \<open>entries.get(language, entries)\<close>: the headings of the language, or the empty dictionary
  of a page without the language. \<open>find_wiktionary_entry\<close> returns the stored entry when
  there is one, fetches otherwise, and returns \<open>None\<close> for a word with punctuation that has
  no entry.
\<close>

definition add_wiktionary_entry ::
  "collaborators \<Rightarrow> parser \<Rightarrow> string \<Rightarrow> string \<Rightarrow> headings \<times> parser" where
  "add_wiktionary_entry ext p word language =
     (let entries = page_entries ext word language;
          word = entry_word p word (Some language);
          store = setdefault (wiktionary_entries p) word [];
          e = (case map_of store word of None \<Rightarrow> [] | Some e \<Rightarrow> e)
      in case entries of
           None \<Rightarrow> ([], p\<lparr>wiktionary_entries := store\<rparr>)
         | Some hs \<Rightarrow>
             (hs, p\<lparr>wiktionary_entries := AList.update word (AList.update language hs e) store\<rparr>))"

definition find_wiktionary_entry ::
  "collaborators \<Rightarrow> parser \<Rightarrow> string \<Rightarrow> string \<Rightarrow> headings option \<times> parser" where
  "find_wiktionary_entry ext p word language =
     (case lookup_wiktionary_entry p word (Some language) of
        Some entry \<Rightarrow> (Some entry, p)
      | None \<Rightarrow>
          if \<not> contains_punct word
          then (let (entry, p') = add_wiktionary_entry ext p word language in (Some entry, p'))
          else (None, p))"

text \<open>
  \<open>find_wiktionary_subentry\<close> called with a word, a language and a heading: the content
  under the heading, or under the first heading that starts with it, or \<open>None\<close>.
\<close>

definition find_wiktionary_subentry ::
  "collaborators \<Rightarrow> parser \<Rightarrow> string \<Rightarrow> string \<Rightarrow> string
     \<Rightarrow> (py_error + item list option) \<times> parser" where
  "find_wiktionary_subentry ext p word language heading =
     (if contains_punct word then (Inr None, p)
      else case find_wiktionary_entry ext p word language of
             (None, p') \<Rightarrow> (Inl AttributeError, p')
           | (Some entry, p') \<Rightarrow>
               (case map_of entry heading of
                  Some section \<Rightarrow> (Inr (Some section), p')
                | None \<Rightarrow>
                    (Inr (map_option snd
                       (find (\<lambda>(section, content). take (length heading) section = heading)
                          entry)),
                     p')))"

definition lookup_word_inflections :: "parser \<Rightarrow> string \<Rightarrow> string \<Rightarrow> item list option" where
  "lookup_word_inflections p word language =
     lookup_wiktionary_subentry_heading p word language ''Declension''"

definition find_word_inflections ::
  "collaborators \<Rightarrow> parser \<Rightarrow> string \<Rightarrow> string
     \<Rightarrow> (py_error + item list option) \<times> parser" where
  "find_word_inflections ext p word language =
     find_wiktionary_subentry ext p word language ''Declension''"

definition lookup_word_etymology :: "parser \<Rightarrow> string \<Rightarrow> string \<Rightarrow> item list option" where
  "lookup_word_etymology p word language =
     lookup_wiktionary_subentry_heading p word language ''Etymology''"

text \<open>\<open>pos_entry[1]\<close> and \<open>pos_entry[0]\<close> on an element of a content list: a component of
  a definition pair, or a character of a string.\<close>

fun item_get :: "item \<Rightarrow> nat \<Rightarrow> py_error + string option" where
  "item_get (Defn defn lemma) i =
     (if i = 0 then Inr (Some defn) else if i = 1 then Inr lemma else Inl IndexError)"
| "item_get (Str s) i = (if i < length s then Inr (Some [s ! i]) else Inl IndexError)"

text \<open>
  \<open>find_stemwords\<close>. The comprehension over \<open>pos_entries[1:]\<close> keeps the second items that
  are not \<open>None\<close>; an \<open>IndexError\<close> anywhere in it skips the heading. Without an entry the
  method falls off its end and returns \<open>None\<close>.
\<close>

fun stems_of :: "item list \<Rightarrow> py_error + string list" where
  "stems_of [] = Inr []"
| "stems_of (pos_entry # pos_entries) =
     (case item_get pos_entry 1 of
        Inl e \<Rightarrow> Inl e
      | Inr None \<Rightarrow> stems_of pos_entries
      | Inr (Some stem) \<Rightarrow>
          (case stems_of pos_entries of Inl e \<Rightarrow> Inl e | Inr stems \<Rightarrow> Inr (stem # stems)))"

fun stemwords_loop :: "string set \<Rightarrow> headings \<Rightarrow> string list \<Rightarrow> string list" where
  "stemwords_loop poses [] stemwords = stemwords"
| "stemwords_loop poses ((heading, pos_entries) # lang_entries) stemwords =
     (if heading \<in> poses
      then (case stems_of (drop 1 pos_entries) of
              Inl e \<Rightarrow> stemwords_loop poses lang_entries stemwords
            | Inr stems \<Rightarrow> stemwords_loop poses lang_entries (stemwords @ stems))
      else stemwords_loop poses lang_entries stemwords)"

definition find_stemwords ::
  "collaborators \<Rightarrow> parser \<Rightarrow> string \<Rightarrow> string option \<Rightarrow> string set option
     \<Rightarrow> string list option \<times> parser" where
  "find_stemwords ext p word lang poses =
     (let poses = (case poses of None \<Rightarrow> PARTS_OF_SPEECH | Some ps \<Rightarrow> ps);
          language = verify_language p lang
      in case find_wiktionary_entry ext p word language of
           (None, p') \<Rightarrow> (None, p')
         | (Some lang_entries, p') \<Rightarrow>
             (Some (stemwords_loop poses lang_entries []), p'))"

text \<open>
  \<open>find_headwords\<close>. The head word of a heading is \<open>pos_entry[0][0]\<close>; an \<open>IndexError\<close> skips
  the heading. Without an entry, iterating over \<open>None\<close> raises \<open>TypeError\<close>.
\<close>

definition headword_of :: "item list \<Rightarrow> py_error + string option" where
  "headword_of pos_entry =
     (case pos_entry of [] \<Rightarrow> Inl IndexError | first # _ \<Rightarrow> item_get first 0)"

fun headwords_loop :: "string set \<Rightarrow> headings \<Rightarrow> string list \<Rightarrow> string list" where
  "headwords_loop poses [] headwords = headwords"
| "headwords_loop poses ((heading, pos_entry) # lang_entries) headwords =
     (if heading \<in> poses
      then (case headword_of pos_entry of
              Inl e \<Rightarrow> headwords_loop poses lang_entries headwords
            | Inr None \<Rightarrow> headwords_loop poses lang_entries headwords
            | Inr (Some headword) \<Rightarrow> headwords_loop poses lang_entries (headwords @ [headword]))
      else headwords_loop poses lang_entries headwords)"

definition find_headwords ::
  "collaborators \<Rightarrow> parser \<Rightarrow> string \<Rightarrow> string option \<Rightarrow> string set option
     \<Rightarrow> (py_error + string list) \<times> parser" where
  "find_headwords ext p word lang poses =
     (let poses = (case poses of None \<Rightarrow> PARTS_OF_SPEECH | Some ps \<Rightarrow> ps);
          language = verify_language p lang
      in case find_wiktionary_entry ext p word language of
           (None, p') \<Rightarrow> (Inl TypeError, p')
         | (Some lang_entries, p') \<Rightarrow>
             (Inr (headwords_loop poses lang_entries []), p'))"

text \<open>
  \<open>verify_word\<close>: every character of the word is a letter of the alphabet, and the word
  is in the lexicon or the lexicon is empty.
\<close>

definition in_lexicon :: "collaborators \<Rightarrow> string \<Rightarrow> string \<Rightarrow> bool" where
  "in_lexicon ext word language =
     (let lexicon = find_lexicon ext language in word \<in> set lexicon \<or> length lexicon = 0)"

definition verify_word :: "collaborators \<Rightarrow> parser \<Rightarrow> string \<Rightarrow> string option \<Rightarrow> bool" where
  "verify_word ext p word lang =
     (let language = verify_language p lang;
          word_chars = remdups (map (\<lambda>c. [c]) word);
          alphabet = find_alphabet ext language
      in length (filter (\<lambda>c. c \<notin> set alphabet) word_chars) = 0 \<and> in_lexicon ext word language)"

text \<open>
  \<open>word_lemmas\<close>. \<open>lemmas.update(stemwords)\<close> with the \<open>None\<close> that \<open>find_stemwords\<close> returns
  without an entry raises \<open>TypeError\<close>.
\<close>

definition word_lemmas ::
  "collaborators \<Rightarrow> parser \<Rightarrow> string \<Rightarrow> string option \<Rightarrow> string set option
     \<Rightarrow> (py_error + string list) \<times> parser" where
  "word_lemmas ext p word lang poses =
     (if length word = 0 then (Inr [], p)
      else
        let poses = (case poses of None \<Rightarrow> PARTS_OF_SPEECH | Some ps \<Rightarrow> ps);
            language = verify_language p lang;
            word = entry_word p word (Some language);
            verified = (\<lambda>lemmas. filter (\<lambda>lemma. verify_word ext p lemma (Some language)) lemmas)
        in case lookup_word_inflections p word language of
             Some declension \<Rightarrow> (Inr (verified (os_add [] word)), p)
           | None \<Rightarrow>
               (case find_word_inflections ext p word language of
                  (Inl e, p1) \<Rightarrow> (Inl e, p1)
                | (Inr (Some etym), p1) \<Rightarrow> (Inr (verified (os_add [] word)), p1)
                | (Inr None, p1) \<Rightarrow>
                    (case find_stemwords ext p1 word (Some language) (Some poses) of
                       (None, p2) \<Rightarrow> (Inl TypeError, p2)
                     | (Some stemwords, p2) \<Rightarrow>
                         (let lemmas = os_update [] stemwords
                          in if length lemmas = 0
                             then (case find_headwords ext p2 word (Some language) (Some poses) of
                                     (Inl e, p3) \<Rightarrow> (Inl e, p3)
                                   | (Inr headwords, p3) \<Rightarrow>
                                       (Inr (verified (os_update lemmas headwords)), p3))
                             else (Inr (verified lemmas), p2)))))"

text \<open>
  \<open>all_word_morphemes\<close>. \<open>todo\<close> is a Python set: the list of its elements, from which
  \<open>todo.pop()\<close> takes the element at the index that \<open>pop\<close> chooses, whatever \<open>pop\<close> is.
  The loop tests \<open>len(curr_word)\<close> and \<open>contains_punct(curr_word)\<close> on an element of a
  content list; on a definition pair \<open>word_morphemes\<close> would call \<open>lower\<close> on a pair, which
  raises \<open>AttributeError\<close>. \<open>all_items\<close>, the items the store holds, bounds what the loop
  can still record.
\<close>

definition word_morphemes :: "parser \<Rightarrow> string \<Rightarrow> string \<Rightarrow> item list option" where
  "word_morphemes p word language =
     lookup_word_etymology p (entry_word p word (Some language)) language"

fun item_len :: "item \<Rightarrow> nat" where
  "item_len (Str s) = length s"
| "item_len (Defn defn lemma) = 2"

fun item_contains_punct :: "item \<Rightarrow> bool" where
  "item_contains_punct (Str s) = contains_punct s"
| "item_contains_punct (Defn defn lemma) =
     list_ex (\<lambda>char. defn = [char] \<or> lemma = Some [char]) punctuation"

definition all_items :: "parser \<Rightarrow> item set" where
  "all_items p =
     set (concat (map snd (concat (map snd (concat (map snd (wiktionary_entries p)))))))"

function all_word_morphemes_loop ::
  "parser \<Rightarrow> (item list \<Rightarrow> nat) \<Rightarrow> string \<Rightarrow> item list \<Rightarrow> item list \<Rightarrow> py_error + item list" where
  "all_word_morphemes_loop p pop language morphemes todo =
     (if length todo = 0 then Inr (order_items morphemes)
      else
        let curr_word = todo ! (pop todo mod length todo);
            todo' = removeAll curr_word todo
        in if item_len curr_word \<noteq> 0 \<and> curr_word \<notin> set morphemes
              \<and> \<not> item_contains_punct curr_word
           then (case curr_word of
                   Defn defn lemma \<Rightarrow> Inl AttributeError
                 | Str w \<Rightarrow>
                     (case word_morphemes p w language of
                        None \<Rightarrow>
                          all_word_morphemes_loop p pop language (os_add morphemes curr_word) todo'
                      | Some ms \<Rightarrow>
                          all_word_morphemes_loop p pop language
                            (os_update (os_add morphemes curr_word) ms) (os_update todo' ms)))
           else all_word_morphemes_loop p pop language morphemes todo')"
  by pat_completeness auto
termination
proof (relation "inv_image (less_than <*lex*> less_than)
    (\<lambda>(p, pop, language, morphemes, todo).
       (card ((all_items p \<union> set todo) - set morphemes), length todo))", goal_cases)
  case 1
  show ?case by (intro wf_inv_image wf_lex_prod wf_less_than)
next
  case (2 p pop language morphemes todo curr todo' w)
  have add [simp]: "set (os_add xs x) = insert x (set xs)" for xs :: "item list" and x
    by (auto simp: os_add_def)
  have upd [simp]: "set (os_update xs ys) = set xs \<union> set ys" for xs ys :: "item list"
    unfolding os_update_def by (induction ys arbitrary: xs) auto
  let ?A = "(all_items p \<union> set todo) - set morphemes"
  have fin: "finite ?A" by (simp add: all_items_def)
  have curr: "curr \<in> set todo" "curr \<notin> set morphemes" "set todo' \<subseteq> set todo"
    using 2(1-4) by auto
  have "(all_items p \<union> set todo') - set (os_add morphemes curr) \<subset> ?A"
    using curr by auto
  then show ?case using psubset_card_mono[OF fin] by simp
next
  case (3 p pop language morphemes todo curr todo' w ms)
  have add [simp]: "set (os_add xs x) = insert x (set xs)" for xs :: "item list" and x
    by (auto simp: os_add_def)
  have upd [simp]: "set (os_update xs ys) = set xs \<union> set ys" for xs ys :: "item list"
    unfolding os_update_def by (induction ys arbitrary: xs) auto
  let ?A = "(all_items p \<union> set todo) - set morphemes"
  have fin: "finite ?A" by (simp add: all_items_def)
  have curr: "curr \<in> set todo" "curr \<notin> set morphemes" "set todo' \<subseteq> set todo"
    using 3(1-4) by auto
  from 3(6) obtain e hs where "(entry_word p w (Some language), e) \<in> set (wiktionary_entries p)"
     "(language, hs) \<in> set e" "(''Etymology'', ms) \<in> set hs"
    by (auto simp: word_morphemes_def lookup_word_etymology_def
          lookup_wiktionary_subentry_heading_def lookup_wiktionary_subentry_def
          split: option.splits dest!: map_of_SomeD)
  then have ms: "set ms \<subseteq> all_items p"
    unfolding all_items_def by force
  have "(all_items p \<union> set (os_update todo' ms))
        - set (os_update (os_add morphemes curr) ms) \<subset> ?A"
    using curr ms by auto
  then show ?case using psubset_card_mono[OF fin] by simp
next
  case (4 p pop language morphemes todo curr todo')
  let ?A = "(all_items p \<union> set todo) - set morphemes"
  have fin: "finite ?A" by (simp add: all_items_def)
  have curr: "curr \<in> set todo" "set todo' \<subseteq> set todo"
    using 4(1-3) by auto
  have "(all_items p \<union> set todo') - set morphemes \<subseteq> ?A" using curr by auto
  then have "card ((all_items p \<union> set todo') - set morphemes) \<le> card ?A"
    using card_mono[OF fin] by blast
  moreover have "length todo' < length todo"
    using curr 4(3) by (simp add: length_removeAll_less)
  ultimately show ?case by auto
qed

definition all_word_morphemes ::
  "parser \<Rightarrow> (item list \<Rightarrow> nat) \<Rightarrow> string \<Rightarrow> string option \<Rightarrow> py_error + item list" where
  "all_word_morphemes p pop word lang =
     all_word_morphemes_loop p pop (verify_language p lang) [] [Str word]"

declare all_word_morphemes_loop.simps [simp del]

section \<open>WiktionaryTable: the grid of a table and its declension\<close>

text \<open>
  A cell is a \<open>td\<close> or \<open>th\<close> tag of the markup tree. The record holds what the methods read
  from the tag through the markup library: its identity as an object (\<open>cell_id\<close>), its
  name, its \<open>rowspan\<close>, \<open>colspan\<close> and \<open>text\<close> attributes (\<open>cell.get\<close>, \<open>None\<close> when the
  attribute is absent, the spans already as integers), the \<open>href\<close> of the first link in it
  (\<open>None\<close> when \<open>cell.find("a")\<close> finds no link, \<open>Some None\<close> for a link without \<open>href\<close>),
  its visible text (\<open>cell.getText()\<close>), the name of its first child, whether it holds a
  paragraph, and the text that the method \<open>cell_text\<close> extracts from it.
\<close>

record cell =
  cell_id :: nat
  tag_name :: string
  rowspan_attr :: "int option"
  colspan_attr :: "int option"
  text_attr :: "string option"
  link_href :: "string option option"
  get_text :: string
  first_item_name :: "string option"
  has_paragraph :: bool
  cell_text :: string

text \<open>
  A table is the language of the \<open>WiktionaryTable\<close>, its rows (\<open>self.rows\<close>, each row as the
  list of its cells, \<open>table_cells(row)\<close>) and \<open>self.num_cols\<close>, which \<open>count_cols\<close> computed
  from the first row of the markup table; \<open>self.num_rows\<close> is the number of rows.
\<close>

record table =
  table_language :: string
  rows :: "cell list list"
  num_cols :: int

definition num_rows :: "table \<Rightarrow> int" where
  "num_rows t = int (length (rows t))"


text \<open>\<open>s[-n:]\<close>: the last \<open>n\<close> characters, the whole string when \<open>n\<close> is 0 or exceeds its
  length.\<close>

definition py_suffix :: "nat \<Rightarrow> string \<Rightarrow> string" where
  "py_suffix n s = (if n = 0 then s else drop (length s - n) s)"

definition is_header :: "table \<Rightarrow> cell \<Rightarrow> bool" where
  "is_header t cell =
     (if tag_name cell = ''th'' \<or> tag_name cell = ''td''
      then (case link_href cell of
              None \<Rightarrow> True
            | Some None \<Rightarrow> False
            | Some (Some href) \<Rightarrow>
                py_suffix (length (table_language t)) href \<noteq> table_language t
                \<and> py_suffix 9 href \<noteq> ''redlink=1'')
      else False)"





definition cell_rowspan :: "cell \<Rightarrow> int" where
  "cell_rowspan cell = (case rowspan_attr cell of None \<Rightarrow> 1 | Some n \<Rightarrow> n)"

definition cell_colspan :: "cell \<Rightarrow> int" where
  "cell_colspan cell = (case colspan_attr cell of None \<Rightarrow> 1 | Some n \<Rightarrow> n)"

text \<open>\<open>is_col_empty\<close>: \<open>col.get("text")\<close> reads the attribute named \<open>text\<close> of the tag.\<close>

definition is_col_empty :: "table \<Rightarrow> cell \<Rightarrow> bool" where
  "is_col_empty t col = (cell_rowspan col \<ge> num_rows t \<and> text_attr col = None)"

type_synonym coord = "int \<times> int"
type_synonym grid = "(coord, cell) dict"

text \<open>
  \<open>parse_table\<close>. The grid \<open>table_dict\<close> maps coordinates to cells. The two \<open>for\<close> loops run
  over iterators that the body also advances, so each iterator is the list of the values it
  has still to yield: \<open>next()\<close> takes the head, and \<open>StopIteration\<close> is the empty list.

  Beside the grid the loops keep a history of the placements made, in order: the origin, the
  clamped row-span and col-span, and the cell. The history is not read by the loops; it
  names the cells placed, for the properties that speak of them.
\<close>

type_synonym placement = "coord \<times> int \<times> int \<times> cell"

text \<open>\<open>while self.is_col_empty(cell)\<close>: take the next cell of the row, or stop when there is
  none.\<close>

fun skip_empty_cols :: "table \<Rightarrow> cell \<Rightarrow> cell list \<Rightarrow> cell \<times> cell list" where
  "skip_empty_cols t cell [] = (cell, [])"
| "skip_empty_cols t cell (next_cell # cells_iter) =
     (if is_col_empty t cell then skip_empty_cols t next_cell cells_iter
      else (cell, next_cell # cells_iter))"

text \<open>\<open>while coord in table_dict\<close>: move to the next column, or when the columns are used up
  to the next row; the first component is \<open>False\<close> when the loop ended by \<open>break\<close>, with both
  iterators exhausted, and the \<open>else\<close> branch that places the cell is skipped.\<close>

fun skip_filled ::
  "grid \<Rightarrow> int \<Rightarrow> int \<Rightarrow> int list \<Rightarrow> int list \<Rightarrow> bool \<times> int \<times> int \<times> int list \<times> int list" where
  "skip_filled d r c (next_c # col_iter) row_iter =
     (if map_of d (r, c) \<noteq> None then skip_filled d r (c + 1) col_iter row_iter
      else (True, r, c, next_c # col_iter, row_iter))"
| "skip_filled d r c [] (next_r # row_iter) =
     (if map_of d (r, c) \<noteq> None then skip_filled d (r + 1) c [] row_iter
      else (True, r, c, [], next_r # row_iter))"
| "skip_filled d r c [] [] =
     (if map_of d (r, c) \<noteq> None then (False, r, c, [], []) else (True, r, c, [], []))"

text \<open>The two \<open>while\<close> loops that write a cell over its span.\<close>

definition place_row :: "grid \<Rightarrow> int \<Rightarrow> int \<Rightarrow> cell \<Rightarrow> int \<Rightarrow> grid" where
  "place_row d r c cell colspan =
     fold (\<lambda>cs d. AList.update (r, c + cs) cell d) [1..colspan - 1]
       (AList.update (r, c) cell d)"

definition place_span :: "grid \<Rightarrow> int \<Rightarrow> int \<Rightarrow> cell \<Rightarrow> int \<Rightarrow> int \<Rightarrow> grid" where
  "place_span d r c cell rowspan colspan =
     fold (\<lambda>rs d. place_row d (r + rs) c cell colspan) [0..rowspan - 1] d"

definition place_cell :: "grid \<Rightarrow> placement \<Rightarrow> grid" where
  "place_cell d pl =
     (case pl of ((r, c), rowspan, colspan, cell) \<Rightarrow>
        if colspan \<noteq> 1 \<or> rowspan \<noteq> 1 then place_span d r c cell rowspan colspan
        else AList.update (r, c) cell d)"

text \<open>The loop \<open>for c in col_iter\<close> over one row.\<close>

function cols_loop ::
  "table \<Rightarrow> grid \<times> placement list \<Rightarrow> int \<Rightarrow> int \<Rightarrow> int list \<Rightarrow> cell list \<Rightarrow> int list
     \<Rightarrow> (grid \<times> placement list) \<times> int \<times> int list" where
  "cols_loop t st ncols r row_iter cells_iter [] = (st, ncols, row_iter)"
| "cols_loop t st ncols r row_iter [] (c # col_iter) =
     cols_loop t st ncols r row_iter [] col_iter"
| "cols_loop t (d, placed) ncols r row_iter (first # rest) (c # col_iter) =
     (case skip_empty_cols t first rest of (cell, cells_iter) \<Rightarrow>
        if is_col_empty t cell
        then cols_loop t (d, placed) (ncols - 1) r row_iter cells_iter col_iter
        else (case skip_filled d r c col_iter row_iter of
                (False, r', c', col_iter', row_iter') \<Rightarrow>
                  cols_loop t (d, placed) ncols r' row_iter' cells_iter col_iter'
              | (True, r', c', col_iter', row_iter') \<Rightarrow>
                  (let rowspan = min (cell_rowspan cell) (num_rows t);
                       colspan = min (cell_colspan cell) ncols;
                       pl = ((r', c'), rowspan, colspan, cell)
                   in cols_loop t (place_cell d pl, placed @ [pl]) ncols r' row_iter' cells_iter
                        (if colspan \<noteq> 1 \<or> rowspan \<noteq> 1
                         then drop (nat (colspan - 1)) col_iter' else col_iter'))))"
  by pat_completeness auto
termination
proof (relation "measure (\<lambda>(t, st, ncols, r, row_iter, cells_iter, col_iter). length col_iter)",
       goal_cases)
  case 1 show ?case by simp
next
  case 2 then show ?case by simp
next
  case 3 then show ?case by simp
next
  case 4
  have len: "skip_filled d r c ci ri = (b, r', c', ci', ri') \<Longrightarrow> length ci' \<le> length ci"
    for d r c ci ri b r' c' ci' ri'
    by (induction d r c ci ri rule: skip_filled.induct) (auto split: if_splits)
  from 4 show ?case by (auto dest!: len[OF sym])
next
  case 5
  have len: "skip_filled d r c ci ri = (b, r', c', ci', ri') \<Longrightarrow> length ci' \<le> length ci"
    for d r c ci ri b r' c' ci' ri'
    by (induction d r c ci ri rule: skip_filled.induct) (auto split: if_splits)
  from 5 show ?case by (auto dest!: len[OF sym])
qed

declare cols_loop.simps [simp del]

text \<open>The loop \<open>for r in row_iter\<close>.\<close>

function rows_loop ::
  "table \<Rightarrow> grid \<times> placement list \<Rightarrow> int \<Rightarrow> int list \<Rightarrow> py_error + grid \<times> placement list" where
  "rows_loop t st ncols [] = Inr st"
| "rows_loop t st ncols (r # row_iter) =
     (case py_index (rows t) r of
        Inl e \<Rightarrow> Inl e
      | Inr cells \<Rightarrow>
          (case cols_loop t st ncols r row_iter cells [0..ncols - 1] of
             (st', ncols', row_iter') \<Rightarrow> rows_loop t st' ncols' row_iter'))"
  by pat_completeness auto
termination
proof (relation "measure (\<lambda>(t, st, ncols, row_iter). length row_iter)", goal_cases)
  case 1 show ?case by simp
next
  case 2
  have len: "skip_filled d r c ci ri = (b, r', c', ci', ri') \<Longrightarrow> length ri' \<le> length ri"
    for d r c ci ri b r' c' ci' ri'
    by (induction d r c ci ri rule: skip_filled.induct) (auto split: if_splits)
  have "length (snd (snd (cols_loop t st ncols r ri cells ci))) \<le> length ri"
    for t st ncols r ri cells ci
  proof (induction t st ncols r ri cells ci rule: cols_loop.induct)
    case (1 t st ncols r row_iter cells_iter)
    then show ?case by (simp add: cols_loop.simps)
  next
    case (2 t st ncols r row_iter c col_iter)
    then show ?case by (simp add: cols_loop.simps)
  next
    case (3 t d placed ncols r row_iter first rest c col_iter)
    obtain cell cells_iter where se: "skip_empty_cols t first rest = (cell, cells_iter)"
      by (cases "skip_empty_cols t first rest")
    obtain b r' c' ci' ri' where sf: "skip_filled d r c col_iter row_iter = (b, r', c', ci', ri')"
      by (cases "skip_filled d r c col_iter row_iter")
    note l = len[OF sf]
    show ?case
    proof (cases "is_col_empty t cell")
      case True
      then show ?thesis using 3(1)[OF se[symmetric] True] se
        by (simp add: cols_loop.simps)
    next
      case False
      show ?thesis
      proof (cases b)
        case True
        from 3(2)[OF se[symmetric] False sf[symmetric] True[THEN eqTrueI] refl refl refl refl refl refl]
        show ?thesis using se sf True False l
          by (simp add: cols_loop.simps Let_def)
      next
        case Fb: False
        from 3(3)[OF se[symmetric] False sf[symmetric] Fb[THEN eq_False[THEN iffD2]] refl refl refl]
        show ?thesis using se sf Fb False l
          by (simp add: cols_loop.simps)
      qed
    qed
  qed
  from this 2 show ?case
    by (metis (no_types, lifting) in_measure le_imp_less_Suc length_Cons old.prod.case snd_conv)
qed

definition parse_table_trace :: "table \<Rightarrow> py_error + grid \<times> placement list" where
  "parse_table_trace t = rows_loop t ([], []) (num_cols t) [0..num_rows t - 1]"

definition parse_table :: "table \<Rightarrow> py_error + grid" where
  "parse_table t = (case parse_table_trace t of Inl e \<Rightarrow> Inl e | Inr (d, placed) \<Rightarrow> Inr d)"

text \<open>\<open>sorted(table_dict)\<close> with \<open>table_dict[coord]\<close> for each coordinate: the pairs of the grid
  in the order of their coordinates.\<close>

definition sorted_items :: "grid \<Rightarrow> (coord \<times> cell) list" where
  "sorted_items table_dict = sort_key fst table_dict"






text \<open>\<open>cell_rows\<close>. \<open>num_rows\<close> is the row of the largest coordinate of the grid,
  \<open>sorted_dict[-1]\<close>, which raises \<open>IndexError\<close> on an empty grid.\<close>

fun cell_rows_loop :: "table \<Rightarrow> int \<Rightarrow> cell list \<Rightarrow> string list \<Rightarrow> bool \<Rightarrow> string list" where
  "cell_rows_loop t num_rows' [] rows' header_yet = rows'"
| "cell_rows_loop t num_rows' (cell # cells) rows' header_yet =
     (if is_header t cell
      then (let text = cell_text cell
            in if cell_rowspan cell \<le> num_rows' \<and> length text \<noteq> 0
               then (if text \<notin> set rows'
                     then cell_rows_loop t num_rows' cells (text # rows') True
                     else cell_rows_loop t num_rows' cells rows' header_yet)
               else cell_rows_loop t num_rows' cells rows' header_yet)
      else if header_yet then rows'
      else cell_rows_loop t num_rows' cells rows' header_yet)"

definition cell_rows :: "table \<Rightarrow> coord \<Rightarrow> grid \<Rightarrow> py_error + string list" where
  "cell_rows t coord table_dict =
     (case coord of (row_num, col_num) \<Rightarrow>
        let sorted_dict = sorted_items table_dict;
            prev_rows = filter (\<lambda>(c, cell). fst c = row_num \<and> snd c < col_num) sorted_dict
        in if sorted_dict = [] then Inl IndexError
           else (case fst (last sorted_dict) of (num_rows', num_cols') \<Rightarrow>
                   Inr (cell_rows_loop t num_rows' (map snd (rev prev_rows)) [] False)))"






text \<open>\<open>parse_declension\<close>: column label, then row label, then the forms.\<close>

type_synonym declension = "(string, (string, string list) dict) dict"



section \<open>The properties in the words of the documentation\<close>

subsection \<open>Stem words and head words, as the docstrings describe them\<close>

text \<open>
  A stem word is the second item in all but the first pair under a part-of-speech heading;
  a head word is the first item of the first pair. \<open>paired_head_lemmas\<close> is the other
  reading of a head word, the lemma paired with the first definition.
\<close>

fun is_pair :: "item \<Rightarrow> bool" where
  "is_pair (Defn defn lemma) = True"
| "is_pair (Str s) = False"

definition stem_words :: "string set \<Rightarrow> headings \<Rightarrow> string list" where
  "stem_words poses lang_entries =
     concat (map (\<lambda>(heading, pairs). [stem. Defn defn (Some stem) \<leftarrow> drop 1 pairs])
               (filter (\<lambda>(heading, pairs). heading \<in> poses) lang_entries))"

definition head_words :: "string set \<Rightarrow> headings \<Rightarrow> string list" where
  "head_words poses lang_entries =
     concat (map (\<lambda>(heading, pairs). [defn. Defn defn lemma \<leftarrow> take 1 pairs])
               (filter (\<lambda>(heading, pairs). heading \<in> poses) lang_entries))"

definition paired_head_lemmas :: "string set \<Rightarrow> headings \<Rightarrow> string list" where
  "paired_head_lemmas poses lang_entries =
     concat (map (\<lambda>(heading, pairs). [lemma. Defn defn (Some lemma) \<leftarrow> take 1 pairs])
               (filter (\<lambda>(heading, pairs). heading \<in> poses) lang_entries))"

subsection \<open>Row labels, declensions and placements\<close>

text \<open>
  The cells that \<open>cell_rows\<close> scans for a coordinate (those of its row to its left, nearest
  first), the largest row index of a grid, and the cells whose text becomes a row label.
\<close>

definition row_label_cell :: "table \<Rightarrow> int \<Rightarrow> cell \<Rightarrow> bool" where
  "row_label_cell t last_row cell =
     (is_header t cell \<and> cell_rowspan cell \<le> last_row \<and> cell_text cell \<noteq> [])"

definition scanned_row_cells :: "grid \<Rightarrow> coord \<Rightarrow> cell list" where
  "scanned_row_cells table_dict coord =
     map snd (rev (filter (\<lambda>(k, cell). fst k = fst coord \<and> snd k < snd coord)
                     (sort_key fst table_dict)))"

definition last_row_index :: "grid \<Rightarrow> int" where
  "last_row_index table_dict = fst (fst (last (sort_key fst table_dict)))"


text \<open>
  The grid that a history of placements writes, the coordinates one placement writes, and
  what a placement's spans are clamped to: the row-span to the number of rows, the col-span
  to a column count \<open>n\<close> that is at most the table's and lies beyond the origin's column.
\<close>

definition replay :: "placement list \<Rightarrow> grid" where
  "replay placed = fold (\<lambda>pl d. place_cell d pl) placed []"

definition covers :: "placement \<Rightarrow> coord \<Rightarrow> bool" where
  "covers pl k =
     (case pl of ((r, c), rowspan, colspan, cell) \<Rightarrow>
        r \<le> fst k \<and> fst k < r + rowspan \<and> (snd k = c \<or> (c < snd k \<and> snd k < c + colspan)))"

definition clamped :: "table \<Rightarrow> placement \<Rightarrow> bool" where
  "clamped t pl =
     (case pl of ((r, c), rowspan, colspan, cell) \<Rightarrow>
        rowspan = min (cell_rowspan cell) (num_rows t) \<and>
        (\<exists>n. 0 \<le> c \<and> c < n \<and> n \<le> num_cols t \<and> colspan = min (cell_colspan cell) n))"

subsection \<open>Example stores\<close>

definition english_letters :: collaborators where
  "english_letters =
     \<lparr>page_entries = (\<lambda>word language. None),
      find_alphabet = (\<lambda>language. map (\<lambda>c. [c]) (ascii_lowercase @ ascii_uppercase)),
      find_lexicon = (\<lambda>language. [])\<rparr>"

definition driven_entry :: headings where
  "driven_entry =
     [(''Verb'', [Defn ''driven (comparative ...)'' None,
                  Defn ''past participle of drive'' (Some ''drive'')])]"

definition driven_parser :: parser where
  "driven_parser =
     \<lparr>self_language = ''English'',
      wiktionary_entries = [(''driven'', [(''English'', driven_entry)])]\<rparr>"

definition geese_entry :: headings where
  "geese_entry = [(''Noun'', [Defn ''geese'' (Some ''goose'')])]"

definition geese_parser :: parser where
  "geese_parser =
     \<lparr>self_language = ''English'',
      wiktionary_entries = [(''geese'', [(''English'', geese_entry)])]\<rparr>"

definition cycle_parser :: parser where
  "cycle_parser =
     \<lparr>self_language = ''Latin'',
      wiktionary_entries =
        [(''a'', [(''Latin'', [(''Etymology'', [Str ''b''])])]),
         (''b'', [(''Latin'', [(''Etymology'', [Str ''a''])])])]\<rparr>"

subsection \<open>Example tables\<close>

text \<open>A header cell has no link; a cell with a form links to the entry of the form.\<close>

definition header_cell :: "nat \<Rightarrow> string \<Rightarrow> cell" where
  "header_cell i s =
     \<lparr>cell_id = i, tag_name = ''th'', rowspan_attr = None, colspan_attr = None,
      text_attr = None, link_href = None, get_text = s, first_item_name = None,
      has_paragraph = False, cell_text = s\<rparr>"

definition form_cell :: "nat \<Rightarrow> string \<Rightarrow> cell" where
  "form_cell i s =
     \<lparr>cell_id = i, tag_name = ''td'', rowspan_attr = None, colspan_attr = None,
      text_attr = None, link_href = Some (Some (''/wiki/'' @ s @ ''#Polish'')), get_text = s,
      first_item_name = None, has_paragraph = False, cell_text = s\<rparr>"

definition kot_table :: table where
  "kot_table =
     \<lparr>table_language = ''Polish'',
      rows = [[header_cell 0 [], header_cell 1 ''Singular'', header_cell 2 ''Plural''],
              [header_cell 3 ''Nominative'', form_cell 4 ''kot'', form_cell 5 ''koty''],
              [header_cell 6 ''Genitive'', form_cell 7 ''kota'', form_cell 8 ''kotow'']],
      num_cols = 3\<rparr>"


definition case_header :: cell where
  "case_header = (header_cell 0 ''Case'')\<lparr>rowspan_attr := Some 2\<rparr>"

definition full_height_table :: table where
  "full_height_table =
     \<lparr>table_language = ''Polish'',
      rows = [[case_header, form_cell 1 ''kot''], [form_cell 2 ''kota'']],
      num_cols = 2\<rparr>"

definition trailing_row_table :: table where
  "trailing_row_table =
     \<lparr>table_language = ''Polish'',
      rows = [[case_header, form_cell 1 ''kot''], [form_cell 2 ''kota''], []],
      num_cols = 2\<rparr>"

definition wide_cell :: cell where
  "wide_cell = (form_cell 4 ''koty'')\<lparr>colspan_attr := Some 3\<rparr>"

definition tall_cell :: cell where
  "tall_cell = (form_cell 6 ''kota'')\<lparr>rowspan_attr := Some 2\<rparr>"

definition span_table :: table where
  "span_table =
     \<lparr>table_language = ''Polish'',
      rows = [[header_cell 0 ''a'', header_cell 1 ''b'', header_cell 2 ''c''],
              [header_cell 3 ''d'', wide_cell],
              [header_cell 5 ''e'', tall_cell, form_cell 7 ''g'']],
      num_cols = 3\<rparr>"

definition overlap_table :: table where
  "overlap_table =
     \<lparr>table_language = ''Polish'',
      rows = [[header_cell 0 ''a'', tall_cell],
              [(form_cell 2 ''b'')\<lparr>colspan_attr := Some 2\<rparr>],
              [header_cell 3 ''c'', form_cell 4 ''d'']],
      num_cols = 2\<rparr>"

definition span_table_placed :: "placement list" where
  "span_table_placed =
     [((0, 0), 1, 1, header_cell 0 ''a''), ((0, 1), 1, 1, header_cell 1 ''b''),
      ((0, 2), 1, 1, header_cell 2 ''c''), ((1, 0), 1, 1, header_cell 3 ''d''),
      ((1, 1), 1, 3, wide_cell), ((2, 0), 1, 1, header_cell 5 ''e''),
      ((2, 1), 2, 1, tall_cell), ((2, 2), 1, 1, form_cell 7 ''g'')]"


section \<open>Properties of ordered sets\<close>

text \<open>The items of an ordered set: what \<open>add\<close> and \<open>update\<close> keep and in which order.\<close>

lemma os_update_Nil: "os_update xs [] = xs"
  by (simp add: os_update_def)

lemma os_update_Cons: "os_update xs (y # ys) = os_update (os_add xs y) ys"
  by (simp add: os_update_def)

lemma set_os_add: "set (os_add xs x) = insert x (set xs)"
  by (auto simp: os_add_def)

lemma set_os_update: "set (os_update xs ys) = set xs \<union> set ys"
  by (induction ys arbitrary: xs) (auto simp: os_update_Nil os_update_Cons set_os_add)

lemma os_update_absorb: "set ys \<subseteq> set xs \<Longrightarrow> os_update xs ys = xs"
  by (induction ys arbitrary: xs) (auto simp: os_add_def os_update_Nil os_update_Cons)

lemma os_update_append: "os_update xs (ys @ zs) = os_update (os_update xs ys) zs"
  by (simp add: os_update_def)

lemma distinct_os_add: "distinct xs \<Longrightarrow> distinct (os_add xs x)"
  by (simp add: os_add_def)

lemma distinct_os_update: "distinct xs \<Longrightarrow> distinct (os_update xs ys)"
  by (induction ys arbitrary: xs) (auto simp: distinct_os_add os_update_Nil os_update_Cons)

lemma os_update_fresh:
  "distinct ys \<Longrightarrow> set xs \<inter> set ys = {} \<Longrightarrow> os_update xs ys = xs @ ys"
  by (induction ys arbitrary: xs) (auto simp: os_add_def os_update_Nil os_update_Cons)

lemma set_OrderedSet: "set (OrderedSet xs) = set xs"
  by (simp add: OrderedSet_def set_os_update)

lemma distinct_OrderedSet: "distinct (OrderedSet xs)"
  by (simp add: OrderedSet_def distinct_os_update)

lemma OrderedSet_Nil_iff: "OrderedSet xs = [] \<longleftrightarrow> xs = []"
  by (metis set_OrderedSet set_empty)

lemma OrderedSet_again: "OrderedSet (OrderedSet (xs @ c) @ c) = OrderedSet (xs @ c)"
proof -
  let ?A = "OrderedSet (xs @ c)"
  have "OrderedSet (?A @ c) = os_update (os_update [] ?A) c"
    by (simp add: OrderedSet_def os_update_append)
  also have "os_update [] ?A = ?A"
    using os_update_fresh[of ?A "[]"] by (simp add: distinct_OrderedSet)
  also have "os_update ?A c = ?A"
    by (rule os_update_absorb) (simp add: set_OrderedSet)
  finally show ?thesis .
qed

section \<open>Properties of the store\<close>

subsection \<open>Writing a heading\<close>

lemma map_of_setdefault:
  "map_of (setdefault d k v) k = Some (case map_of d k of None \<Rightarrow> v | Some w \<Rightarrow> w)"
  by (auto simp: setdefault_def update_conv' split: option.splits)

lemma lookup_set_headings:
  "lookup_wiktionary_subentry p w l = Some e \<Longrightarrow>
   lookup_wiktionary_subentry (set_headings p w l hs) w l = Some hs"
  by (auto simp: lookup_wiktionary_subentry_def set_headings_def update_conv'
           split: option.splits)

lemma set_headings_twice:
  "set_headings (set_headings p w l hs) w l hs' = set_headings p w l hs'"
  by (auto simp: set_headings_def update_conv' split: option.splits)

lemma verify_language_set_headings:
  "verify_language (set_headings p w l hs) lang = verify_language p lang"
  by (simp add: verify_language_def set_headings_def split: option.splits)

text \<open>What a merge does when the word has an entry in the language: the content under
  the heading (nothing, when the heading is new) is joined with the new content and
  deduplicated, and no exception is raised.\<close>

lemma edit_wiktionary_entry_present:
  assumes "lookup_wiktionary_subentry p w (verify_language p lang) = Some e"
  shows "edit_wiktionary_entry p w lang h c =
    (set_headings p w (verify_language p lang)
       (AList.update h (OrderedSet ((case map_of e h of None \<Rightarrow> [] | Some x \<Rightarrow> x) @ c)) e),
     None)"
  using assms
  by (auto simp: edit_wiktionary_entry_def Let_def lookup_set_headings map_of_setdefault
        set_headings_twice setdefault_def update_conv' split: option.splits)

text \<open>
  C2. Merging the same content twice under the same word, language and heading leaves
  the store that merging it once leaves: the second merge adds only items that are
  already there. When the word has no entry in the language both calls raise and the
  store stays as it was.
\<close>

theorem merge_idempotent:
  "fst (edit_wiktionary_entry (fst (edit_wiktionary_entry p word lang heading content))
          word lang heading content)
   = fst (edit_wiktionary_entry p word lang heading content)"
proof (cases "lookup_wiktionary_subentry p word (verify_language p lang)")
  case None
  then show ?thesis by (simp add: edit_wiktionary_entry_def)
next
  case (Some e)
  let ?l = "verify_language p lang"
  let ?old = "case map_of e heading of None \<Rightarrow> [] | Some x \<Rightarrow> x"
  let ?hs = "AList.update heading (OrderedSet (?old @ content)) e"
  let ?p1 = "set_headings p word ?l ?hs"
  have 1: "edit_wiktionary_entry p word lang heading content = (?p1, None)"
    by (rule edit_wiktionary_entry_present[OF Some])
  have 2: "lookup_wiktionary_subentry ?p1 word (verify_language ?p1 lang) = Some ?hs"
    using lookup_set_headings[OF Some] by (simp add: verify_language_set_headings)
  have 3: "edit_wiktionary_entry ?p1 word lang heading content =
     (set_headings ?p1 word ?l
        (AList.update heading (OrderedSet (OrderedSet (?old @ content) @ content)) ?hs), None)"
    using edit_wiktionary_entry_present[OF 2]
    by (simp add: update_conv' verify_language_set_headings)
  show ?thesis
    by (simp add: 1 3 OrderedSet_again set_headings_twice)
qed

theorem merge_idempotent_witness:
  "fst (edit_wiktionary_entry (fst (edit_wiktionary_entry
        \<lparr>self_language = ''English'', wiktionary_entries =
           [(''cat'', [(''English'', [(''Etymology'', [Str ''felinus''])])])]\<rparr>
        ''cat'' None ''Etymology'' [Str ''felinus'', Str ''catus'']))
        ''cat'' None ''Etymology'' [Str ''felinus'', Str ''catus''])
   = \<lparr>self_language = ''English'', wiktionary_entries =
        [(''cat'', [(''English'', [(''Etymology'', [Str ''felinus'', Str ''catus''])])])]\<rparr>"
  using merge_idempotent [of "\<lparr>self_language = ''English'', wiktionary_entries =
           [(''cat'', [(''English'', [(''Etymology'', [Str ''felinus''])])])]\<rparr>"
     "''cat''" None "''Etymology''" "[Str ''felinus'', Str ''catus'']"]
  by (simp add: edit_wiktionary_entry_def verify_language_def lookup_wiktionary_subentry_def
        set_headings_def setdefault_def OrderedSet_def os_update_def os_add_def Let_def)

text \<open>
  C8, as the code has it. When the word has an entry in the language and the heading is
  not yet among its headings, the merge raises nothing and afterwards the heading holds
  the deduplicated content.
\<close>

theorem merge_creates_heading:
  assumes "lookup_wiktionary_subentry p word (verify_language p lang) = Some hs"
      and "map_of hs heading = None"
  shows "snd (edit_wiktionary_entry p word lang heading content) = None \<and>
         lookup_wiktionary_subentry_heading
            (fst (edit_wiktionary_entry p word lang heading content))
            word (verify_language p lang) heading = Some (OrderedSet content)"
  using assms lookup_set_headings[OF assms(1)]
  by (simp add: edit_wiktionary_entry_present lookup_wiktionary_subentry_heading_def
        update_conv')

theorem merge_creates_heading_witness:
  "lookup_wiktionary_subentry_heading
     (fst (edit_wiktionary_entry
        \<lparr>self_language = ''English'', wiktionary_entries = [(''cat'', [(''English'', [])])]\<rparr>
        ''cat'' None ''Etymology'' [Str ''felinus'', Str ''catus'', Str ''felinus'']))
     ''cat'' ''English'' ''Etymology'' = Some [Str ''felinus'', Str ''catus'']"
  using merge_creates_heading [of
     "\<lparr>self_language = ''English'', wiktionary_entries = [(''cat'', [(''English'', [])])]\<rparr>"
     "''cat''" None "[]" "''Etymology''" "[Str ''felinus'', Str ''catus'', Str ''felinus'']"]
  by (simp add: verify_language_def lookup_wiktionary_subentry_def OrderedSet_def
        os_update_def os_add_def)

text \<open>
  A merge for a word the store does not hold: the lookup returns \<open>None\<close>, the call
  \<open>entry.setdefault\<close> raises \<open>AttributeError\<close>, and the store is left without the word.
\<close>

theorem merge_missing_word_counterexample:
  "edit_wiktionary_entry \<lparr>self_language = ''English'', wiktionary_entries = []\<rparr>
      ''cat'' (Some ''English'') ''Etymology'' [Str ''felinus'']
   = (\<lparr>self_language = ''English'', wiktionary_entries = []\<rparr>, Some AttributeError)"
  by (simp add: edit_wiktionary_entry_def verify_language_def lookup_wiktionary_subentry_def)



section \<open>Properties of the lemma cascade\<close>

lemma stems_of_pairs:
  "list_all is_pair pairs \<Longrightarrow> stems_of pairs = Inr [stem. Defn defn (Some stem) \<leftarrow> pairs]"
proof (induction pairs)
  case Nil then show ?case by simp
next
  case (Cons x xs)
  then obtain defn lem where x: "x = Defn defn lem" by (cases x) auto
  show ?case using Cons by (cases lem) (simp_all add: x)
qed

lemma stemwords_loop_pairs:
  "list_all (\<lambda>(heading, content). heading \<in> poses \<longrightarrow> list_all is_pair content) lang_entries \<Longrightarrow>
   stemwords_loop poses lang_entries acc = acc @ stem_words poses lang_entries"
proof (induction lang_entries arbitrary: acc)
  case Nil then show ?case by (simp add: stem_words_def)
next
  case (Cons a as)
  obtain h c where a: "a = (h, c)" by (cases a)
  show ?case
  proof (cases "h \<in> poses")
    case True
    then have "list_all is_pair (drop 1 c)" using Cons.prems a
      by (auto simp: list_all_iff dest: in_set_dropD)
    from stems_of_pairs[OF this] show ?thesis
      using Cons True a by (simp add: stem_words_def)
  next
    case False
    then show ?thesis using Cons a by (simp add: stem_words_def)
  qed
qed

lemma headwords_loop_pairs:
  "list_all (\<lambda>(heading, content). heading \<in> poses \<longrightarrow> list_all is_pair content) lang_entries \<Longrightarrow>
   headwords_loop poses lang_entries acc = acc @ head_words poses lang_entries"
proof (induction lang_entries arbitrary: acc)
  case Nil then show ?case by (simp add: head_words_def)
next
  case (Cons a as)
  obtain h c where a: "a = (h, c)" by (cases a)
  show ?case
  proof (cases "h \<in> poses")
    case True
    then have c: "list_all is_pair c" using Cons.prems a by auto
    show ?thesis
    proof (cases c)
      case Nil
      then show ?thesis using Cons True a by (simp add: head_words_def headword_of_def)
    next
      case (Cons x xs)
      then obtain defn lem where "x = Defn defn lem" using c by (cases x) auto
      then show ?thesis
        using Cons.IH Cons.prems True a Cons by (simp add: head_words_def headword_of_def)
    qed
  next
    case False
    then show ?thesis using Cons a by (simp add: head_words_def)
  qed
qed

lemma verify_language_Some: "verify_language p (Some l) = l"
  by (simp add: verify_language_def)

lemma entry_word_verified:
  "entry_word p word (Some (verify_language p lang)) = entry_word p word lang"
  by (simp add: entry_word_def verify_language_def)

lemma verify_word_verified:
  "verify_word ext p w (Some (verify_language p lang)) = verify_word ext p w lang"
  by (simp add: verify_word_def verify_language_def split: option.splits)

lemma no_declension_lookup:
  assumes "list_all (\<lambda>(heading, content). take (length ''Declension'') heading \<noteq> ''Declension'') hs"
  shows "map_of hs ''Declension'' = None"
    and "find (\<lambda>(section, content). take (length ''Declension'') section = ''Declension'') hs = None"
proof -
  show "map_of hs ''Declension'' = None"
  proof (cases "map_of hs ''Declension''")
    case (Some c)
    then have "(''Declension'', c) \<in> set hs" by (rule map_of_SomeD)
    with assms show ?thesis by (auto simp: list_all_iff)
  qed simp
  show "find (\<lambda>(section, content). take (length ''Declension'') section = ''Declension'') hs = None"
    using assms by (auto simp: find_None_iff list_all_iff)
qed

text \<open>
  C3, as the code has it. For a word that has an entry in the language with no declension
  heading, and whose part-of-speech headings hold definition pairs, \<open>word_lemmas\<close>
  returns the candidates that pass \<open>verify_word\<close>, in first-seen order without
  repetition: the stem words of the allowed headings when there are any, and otherwise
  the head words, where a head word is the first item of a heading's first pair. The
  store is left as it was.
\<close>

theorem word_lemmas_cascade:
  fixes pos :: "string set option"
  defines "poses \<equiv> (case pos of None \<Rightarrow> PARTS_OF_SPEECH | Some ps \<Rightarrow> ps)"
  assumes word: "word \<noteq> []"
    and entry: "lookup_wiktionary_subentry p (entry_word p word lang) (verify_language p lang)
                  = Some lang_entries"
    and nodecl: "list_all (\<lambda>(heading, content). take (length ''Declension'') heading \<noteq> ''Declension'') lang_entries"
    and pairs: "list_all (\<lambda>(heading, content). heading \<in> poses \<longrightarrow> list_all is_pair content)
                  lang_entries"
  shows "word_lemmas ext p word lang pos =
           (Inr (filter (\<lambda>lemma. verify_word ext p lemma lang)
                   (OrderedSet (if stem_words poses lang_entries \<noteq> []
                                then stem_words poses lang_entries
                                else head_words poses lang_entries))), p)"
proof -
  let ?l = "verify_language p lang"
  let ?w = "entry_word p word lang"
  have lk: "lookup_wiktionary_entry p ?w (Some ?l) = Some lang_entries"
    using entry
    by (simp add: lookup_wiktionary_entry_def lookup_wiktionary_subentry_def verify_language_Some
          split: option.splits)
  have fe: "find_wiktionary_entry ext p ?w ?l = (Some lang_entries, p)"
    by (simp add: find_wiktionary_entry_def lk verify_language_Some)
  have d1: "lookup_word_inflections p ?w ?l = None"
    using entry no_declension_lookup(1)[OF nodecl]
    by (simp add: lookup_word_inflections_def lookup_wiktionary_subentry_heading_def
          verify_language_Some entry_word_verified)
  have d2: "find_word_inflections ext p ?w ?l = (Inr None, p)"
    using no_declension_lookup[OF nodecl]
    by (simp add: find_word_inflections_def find_wiktionary_subentry_def fe
          verify_language_Some entry_word_verified)
  have st: "find_stemwords ext p ?w (Some ?l) (Some poses) = (Some (stem_words poses lang_entries), p)"
    using stemwords_loop_pairs[OF pairs, of "[]"]
    by (simp add: find_stemwords_def fe verify_language_Some entry_word_verified)
  have hd: "find_headwords ext p ?w (Some ?l) (Some poses) = (Inr (head_words poses lang_entries), p)"
    using headwords_loop_pairs[OF pairs, of "[]"]
    by (simp add: find_headwords_def fe verify_language_Some entry_word_verified)
  show ?thesis
  proof (cases "stem_words poses lang_entries = []")
    case True
    then show ?thesis using word
      by (simp add: word_lemmas_def Let_def d1 d2 st hd poses_def[symmetric] OrderedSet_def
            os_update_Nil verify_language_Some entry_word_verified verify_word_verified)
  next
    case False
    then have "os_update [] (stem_words poses lang_entries) \<noteq> []"
      using OrderedSet_Nil_iff[of "stem_words poses lang_entries"]
      unfolding OrderedSet_def by blast
    then show ?thesis using word False
      by (simp add: word_lemmas_def Let_def d1 d2 st poses_def[symmetric] OrderedSet_def
            verify_language_Some entry_word_verified verify_word_verified)
  qed
qed

theorem word_lemmas_cascade_witness:
  "word_lemmas english_letters driven_parser ''driven'' (Some ''English'') (Some {''Verb''})
     = (Inr [''drive''], driven_parser)"
proof -
  have w: "entry_word driven_parser ''driven'' (Some ''English'') = ''driven''"
    by (simp add: entry_word_def driven_parser_def has_entry_def verify_language_def)
  have 1: "''driven'' \<noteq> []" by simp
  have 2: "lookup_wiktionary_subentry driven_parser
             (entry_word driven_parser ''driven'' (Some ''English''))
             (verify_language driven_parser (Some ''English'')) = Some driven_entry"
    by (simp add: w) (simp add: lookup_wiktionary_subentry_def driven_parser_def verify_language_def)
  have 3: "list_all (\<lambda>(heading, content). take (length ''Declension'') heading \<noteq> ''Declension'')
             driven_entry"
    by (simp add: driven_entry_def)
  have 4: "list_all (\<lambda>(heading, content).
                heading \<in> (case Some {''Verb''} of None \<Rightarrow> PARTS_OF_SPEECH | Some ps \<Rightarrow> ps)
                \<longrightarrow> list_all is_pair content) driven_entry"
    by (simp add: driven_entry_def)
  have s: "stem_words {''Verb''} driven_entry = [''drive'']"
    by (simp add: stem_words_def driven_entry_def)
  have v: "verify_word english_letters driven_parser ''drive'' (Some ''English'')"
    by (simp add: verify_word_def english_letters_def in_lexicon_def ascii_lowercase_def)
  show ?thesis
    using word_lemmas_cascade [OF 1 2 3 4, of english_letters]
    by (simp add: s v OrderedSet_def os_update_def os_add_def)
qed

text \<open>
  With a single pair \<open>(geese, goose)\<close> under \<open>Noun\<close> there is no stem word, and the head
  word the cascade returns is \<open>geese\<close>, the first item of the pair, not its paired lemma
  \<open>goose\<close>.
\<close>

theorem word_lemmas_head_word_counterexample:
  "fst (word_lemmas english_letters geese_parser ''geese'' (Some ''English'') (Some {''Noun''}))
     = Inr [''geese'']
   \<and> paired_head_lemmas {''Noun''} geese_entry = [''goose'']"
  by (simp add: word_lemmas_def Let_def entry_word_def has_entry_def geese_parser_def geese_entry_def
        lookup_word_inflections_def lookup_wiktionary_subentry_heading_def
        lookup_wiktionary_subentry_def find_word_inflections_def find_wiktionary_subentry_def
        contains_punct_def punctuation_def find_wiktionary_entry_def lookup_wiktionary_entry_def
        find_stemwords_def find_headwords_def headword_of_def verify_word_def in_lexicon_def
        english_letters_def ascii_lowercase_def OrderedSet_def os_update_def os_add_def
        paired_head_lemmas_def verify_language_def)

section \<open>Properties of the morpheme decomposition\<close>

text \<open>Once everything left to do has been recorded as a morpheme, the loop only pops.\<close>

lemma loop_skip:
  "set todo \<subseteq> set morphemes \<Longrightarrow> all_word_morphemes_loop p pop l morphemes todo = Inr morphemes"
proof (induction "length todo" arbitrary: todo rule: less_induct)
  case less
  show ?case
  proof (cases "todo = []")
    case True
    then show ?thesis
      by (subst all_word_morphemes_loop.simps) (simp add: order_items_def)
  next
    case False
    let ?c = "todo ! (pop todo mod length todo)"
    have c: "?c \<in> set todo" using False by simp
    then have "length (removeAll ?c todo) < length todo" by (rule length_removeAll_less)
    moreover have "set (removeAll ?c todo) \<subseteq> set morphemes" using less.prems by auto
    ultimately have "all_word_morphemes_loop p pop l morphemes (removeAll ?c todo) = Inr morphemes"
      by (rule less.hyps)
    moreover have "?c \<in> set morphemes" using c less.prems by blast
    ultimately show ?thesis
      using False by (subst all_word_morphemes_loop.simps) (simp add: Let_def)
  qed
qed

lemma all_word_morphemes_closed_form:
  "all_word_morphemes p pop word lang =
     Inr (if word = [] \<or> contains_punct word then []
          else OrderedSet (Str word #
                 (case word_morphemes p word (verify_language p lang) of
                    None \<Rightarrow> [] | Some ms \<Rightarrow> ms)))"
proof -
  have skip: "all_word_morphemes_loop p pop l ms [] = Inr ms" for ms l
    by (rule loop_skip) simp
  show ?thesis
  proof (cases "word = [] \<or> contains_punct word")
    case True
    then show ?thesis
      by (subst all_word_morphemes_def, subst all_word_morphemes_loop.simps)
         (auto simp: Let_def skip order_items_def)
  next
    case False
    show ?thesis
    proof (cases "word_morphemes p word (verify_language p lang)")
      case None
      then show ?thesis using False
        by (subst all_word_morphemes_def, subst all_word_morphemes_loop.simps)
           (simp add: Let_def skip OrderedSet_def os_update_Nil os_update_Cons os_add_def
              order_items_def)
    next
      case (Some ms)
      have "all_word_morphemes_loop p pop (verify_language p lang) [] [Str word]
            = all_word_morphemes_loop p pop (verify_language p lang)
                (os_update (os_add [] (Str word)) ms) (os_update [] ms)"
        using False Some
        by (subst all_word_morphemes_loop.simps) (simp add: Let_def os_update_Nil os_update_Cons)
      also have "\<dots> = Inr (os_update (os_add [] (Str word)) ms)"
        by (rule loop_skip) (auto simp: set_os_update)
      finally show ?thesis using False Some
        by (simp add: all_word_morphemes_def OrderedSet_def os_update_Cons)
    qed
  qed
qed

text \<open>
  C4. \<open>all_word_morphemes\<close> is a total function (its loop terminates for every store,
  whichever element \<open>pop\<close> takes from the set), it raises nothing, and it returns the word
  with the items of its etymology, or nothing for an empty word or one with punctuation.
  On the cycle in which the word's etymology is \<open>b\<close> and the etymology of \<open>b\<close> is the word,
  the result is exactly the word and \<open>b\<close>.
\<close>

theorem all_word_morphemes_terminates:
  "all_word_morphemes p pop word lang =
     Inr (if word = [] \<or> contains_punct word then []
          else OrderedSet (Str word #
                 (case word_morphemes p word (verify_language p lang) of
                    None \<Rightarrow> [] | Some ms \<Rightarrow> ms)))
   \<and> (word \<noteq> [] \<and> \<not> contains_punct word \<and>
        wiktionary_entries p =
          [(word, [(verify_language p lang, [(''Etymology'', [Str b])])]),
           (b, [(verify_language p lang, [(''Etymology'', [Str word])])])]
      \<longrightarrow> (\<exists>ms. all_word_morphemes p pop word lang = Inr ms \<and> set ms = {Str word, Str b}))"
proof (intro conjI impI)
  show 1: "all_word_morphemes p pop word lang =
     Inr (if word = [] \<or> contains_punct word then []
          else OrderedSet (Str word #
                 (case word_morphemes p word (verify_language p lang) of
                    None \<Rightarrow> [] | Some ms \<Rightarrow> ms)))"
    by (rule all_word_morphemes_closed_form)
  assume a: "word \<noteq> [] \<and> \<not> contains_punct word \<and>
        wiktionary_entries p =
          [(word, [(verify_language p lang, [(''Etymology'', [Str b])])]),
           (b, [(verify_language p lang, [(''Etymology'', [Str word])])])]"
  then have "entry_word p word (Some (verify_language p lang)) = word"
    by (simp add: entry_word_def has_entry_def Let_def verify_language_Some)
  then have "word_morphemes p word (verify_language p lang) = Some [Str b]"
    using a by (simp add: word_morphemes_def lookup_word_etymology_def
          lookup_wiktionary_subentry_heading_def lookup_wiktionary_subentry_def)
  then show "\<exists>ms. all_word_morphemes p pop word lang = Inr ms \<and> set ms = {Str word, Str b}"
    using a 1 by (simp add: OrderedSet_def os_update_def os_add_def)
qed

theorem all_word_morphemes_terminates_witness:
  "all_word_morphemes cycle_parser (\<lambda>todo. 0) ''a'' None = Inr [Str ''a'', Str ''b'']"
proof -
  have "word_morphemes cycle_parser ''a'' ''Latin'' = Some [Str ''b'']"
    by (simp add: word_morphemes_def lookup_word_etymology_def entry_word_def has_entry_def
          lookup_wiktionary_subentry_heading_def lookup_wiktionary_subentry_def cycle_parser_def
          verify_language_def)
  moreover have "\<not> contains_punct ''a''"
    by (simp add: contains_punct_def punctuation_def)
  moreover have "verify_language cycle_parser None = ''Latin''"
    by (simp add: verify_language_def cycle_parser_def)
  ultimately show ?thesis
    using all_word_morphemes_terminates [of cycle_parser "\<lambda>todo. 0" "''a''" None "''b''"]
    by (simp add: OrderedSet_def os_update_def os_add_def)
qed

section \<open>Properties of the row labels\<close>

lemma cell_rows_loop_after_header:
  "cell_rows_loop t n cells acc True =
     rev (os_update (rev acc)
            (map cell_text (filter (row_label_cell t n) (takeWhile (is_header t) cells))))"
proof (induction cells arbitrary: acc)
  case Nil
  then show ?case by (simp add: os_update_Nil)
next
  case (Cons cell cells)
  show ?case
  proof (cases "is_header t cell")
    case False
    then show ?thesis by (simp add: os_update_Nil)
  next
    case True
    show ?thesis
    proof (cases "row_label_cell t n cell")
      case q: True
      then show ?thesis using True Cons[of "cell_text cell # acc"] Cons[of acc]
        by (auto simp: row_label_cell_def Let_def os_add_def os_update_Cons)
    next
      case nq: False
      then show ?thesis using True Cons[of acc]
        by (auto simp: row_label_cell_def Let_def)
    qed
  qed
qed

lemma cell_rows_loop_before_header:
  "cell_rows_loop t n cells [] False =
     rev (OrderedSet
            (map cell_text
               (filter (row_label_cell t n)
                  (takeWhile (is_header t) (dropWhile (\<lambda>cell. \<not> row_label_cell t n cell) cells)))))"
proof (induction cells)
  case Nil
  then show ?case by (simp add: OrderedSet_def os_update_Nil)
next
  case (Cons cell cells)
  show ?case
  proof (cases "row_label_cell t n cell")
    case True
    then have h: "is_header t cell" by (simp add: row_label_cell_def)
    have "cell_rows_loop t n (cell # cells) [] False
            = cell_rows_loop t n cells [cell_text cell] True"
      using True by (simp add: row_label_cell_def Let_def)
    then show ?thesis using True h
      by (simp add: cell_rows_loop_after_header OrderedSet_def os_add_def os_update_Cons)
  next
    case False
    then show ?thesis using Cons
      by (auto simp: row_label_cell_def Let_def)
  qed
qed

text \<open>
  C9, as the code has it. For a coordinate of a grid, \<open>cell_rows\<close> scans the cells of its row
  with a smaller column index, nearest first. Nothing is collected before the first header
  that qualifies; from there the scan runs while the cells are headers and stops at the
  first cell that is not. A header qualifies when its row-span does not exceed the largest
  row index of the grid and its text is not empty; the result holds the texts of the
  qualifying headers scanned, each once, the one scanned last in front.
\<close>

theorem cell_rows_scan:
  "cell_rows t coord table_dict =
     (if table_dict = [] then Inl IndexError
      else Inr (rev (OrderedSet
             (map cell_text
                (filter (row_label_cell t (last_row_index table_dict))
                   (takeWhile (is_header t)
                      (dropWhile (\<lambda>cell. \<not> row_label_cell t (last_row_index table_dict) cell)
                         (scanned_row_cells table_dict coord))))))))"
proof -
  have e: "sort_key fst table_dict = [] \<longleftrightarrow> table_dict = []"
    by (metis length_sort list.size(3) length_0_conv)
  show ?thesis
    by (cases coord)
       (auto simp: cell_rows_def sorted_items_def e Let_def cell_rows_loop_before_header
          last_row_index_def scanned_row_cells_def split: prod.splits)
qed

theorem cell_rows_scan_witness:
  "(case parse_table kot_table of
      Inr table_dict \<Rightarrow> cell_rows kot_table (1, 2) table_dict = Inr [''Nominative'']
    | Inl e \<Rightarrow> False)"
  unfolding cell_rows_scan by code_simp

text \<open>
  A table of three rows whose last row has no cells: the grid has the rows 0 and 1, the
  header \<open>Case\<close> of row-span 2 stands left of \<open>(0, 1)\<close>, and it is not collected, because 2
  exceeds the largest row index 1.
\<close>

theorem full_height_header_not_collected_counterexample:
  "(case parse_table trailing_row_table of
      Inr table_dict \<Rightarrow>
        cell_rows trailing_row_table (0, 1) table_dict = Inr [] \<and>
        map_of table_dict (0, 0) = Some case_header \<and>
        remdups (map (\<lambda>(k, cell). fst k) table_dict) = [0, 1]
    | Inl e \<Rightarrow> False)
   \<and> is_header trailing_row_table case_header \<and> cell_rowspan case_header = 2
   \<and> cell_text case_header = ''Case''"
  by code_simp

section \<open>Properties of the declension\<close>








section \<open>Properties of the grid\<close>

subsection \<open>The loop over a row\<close>

lemma cols_loop_done: "cols_loop t st ncols r ri cells [] = (st, ncols, ri)"
  by (simp add: cols_loop.simps)

lemma cols_loop_no_cells:
  "cols_loop t st ncols r ri [] (c # ci) = cols_loop t st ncols r ri [] ci"
  by (simp add: cols_loop.simps)

lemma cols_loop_empty_col:
  "skip_empty_cols t first rest = (cell, cells') \<Longrightarrow> is_col_empty t cell \<Longrightarrow>
   cols_loop t (d, placed) ncols r ri (first # rest) (c # ci)
     = cols_loop t (d, placed) (ncols - 1) r ri cells' ci"
  by (simp add: cols_loop.simps)

lemma cols_loop_stop:
  "skip_empty_cols t first rest = (cell, cells') \<Longrightarrow> \<not> is_col_empty t cell \<Longrightarrow>
   skip_filled d r c ci ri = (False, r', c', ci', ri') \<Longrightarrow>
   cols_loop t (d, placed) ncols r ri (first # rest) (c # ci)
     = cols_loop t (d, placed) ncols r' ri' cells' ci'"
  by (simp add: cols_loop.simps)

lemma cols_loop_place:
  "skip_empty_cols t first rest = (cell, cells') \<Longrightarrow> \<not> is_col_empty t cell \<Longrightarrow>
   skip_filled d r c ci ri = (True, r', c', ci', ri') \<Longrightarrow>
   pl = ((r', c'), min (cell_rowspan cell) (num_rows t), min (cell_colspan cell) ncols, cell) \<Longrightarrow>
   cols_loop t (d, placed) ncols r ri (first # rest) (c # ci)
     = cols_loop t (place_cell d pl, placed @ [pl]) ncols r' ri' cells'
         (drop (nat (min (cell_colspan cell) ncols - 1)) ci')"
  by (simp add: cols_loop.simps Let_def)

lemma cols_loop_induct' [case_names finished no_cells empty_col stop place]:
  assumes "\<And>t st ncols r ri cells. P t st ncols r ri cells []"
    and "\<And>t st ncols r ri c ci. P t st ncols r ri [] ci \<Longrightarrow> P t st ncols r ri [] (c # ci)"
    and "\<And>t d placed ncols r ri first rest c ci cell cells'.
           skip_empty_cols t first rest = (cell, cells') \<Longrightarrow> is_col_empty t cell \<Longrightarrow>
           P t (d, placed) (ncols - 1) r ri cells' ci \<Longrightarrow>
           P t (d, placed) ncols r ri (first # rest) (c # ci)"
    and "\<And>t d placed ncols r ri first rest c ci cell cells' r' c' ci' ri'.
           skip_empty_cols t first rest = (cell, cells') \<Longrightarrow> \<not> is_col_empty t cell \<Longrightarrow>
           skip_filled d r c ci ri = (False, r', c', ci', ri') \<Longrightarrow>
           P t (d, placed) ncols r' ri' cells' ci' \<Longrightarrow>
           P t (d, placed) ncols r ri (first # rest) (c # ci)"
    and "\<And>t d placed ncols r ri first rest c ci cell cells' r' c' ci' ri' pl.
           skip_empty_cols t first rest = (cell, cells') \<Longrightarrow> \<not> is_col_empty t cell \<Longrightarrow>
           skip_filled d r c ci ri = (True, r', c', ci', ri') \<Longrightarrow>
           pl = ((r', c'), min (cell_rowspan cell) (num_rows t),
                 min (cell_colspan cell) ncols, cell) \<Longrightarrow>
           P t (place_cell d pl, placed @ [pl]) ncols r' ri' cells'
             (drop (nat (min (cell_colspan cell) ncols - 1)) ci') \<Longrightarrow>
           P t (d, placed) ncols r ri (first # rest) (c # ci)"
  shows "P t st ncols r ri cells ci"
proof (induction t st ncols r ri cells ci rule: cols_loop.induct)
  case (1 t st ncols r row_iter cells_iter)
  then show ?case by (rule assms(1))
next
  case (2 t st ncols r row_iter c col_iter)
  then show ?case by (rule assms(2))
next
  case (3 t d placed ncols r row_iter first rest c col_iter)
  obtain cell cells' where se: "skip_empty_cols t first rest = (cell, cells')"
    by (cases "skip_empty_cols t first rest")
  obtain b r' c' ci' ri' where sf: "skip_filled d r c col_iter row_iter = (b, r', c', ci', ri')"
    by (cases "skip_filled d r c col_iter row_iter")
  show ?case
  proof (cases "is_col_empty t cell")
    case True
    from 3(1)[OF se[symmetric] True] show ?thesis by (rule assms(3)[OF se True])
  next
    case False
    show ?thesis
    proof (cases b)
      case True
      let ?R = "min (cell_rowspan cell) (num_rows t)"
      let ?C = "min (cell_colspan cell) ncols"
      have d: "(if ?C \<noteq> 1 \<or> ?R \<noteq> 1 then drop (nat (?C - 1)) ci' else ci') = drop (nat (?C - 1)) ci'"
        by simp
      from 3(2)[OF se[symmetric] False sf[symmetric] True[THEN eqTrueI] refl refl refl refl refl refl]
      show ?thesis
        unfolding d by (rule assms(5)[OF se False sf[unfolded True[THEN eqTrueI]] refl])
    next
      case Fb: False
      from 3(3)[OF se[symmetric] False sf[symmetric] Fb[THEN eq_False[THEN iffD2]] refl refl refl]
      show ?thesis
        by (rule assms(4)[OF se False sf[unfolded Fb[THEN eq_False[THEN iffD2]]]])
    qed
  qed
qed

lemma skip_filled_row_iter:
  "skip_filled d r c ci ri = (b, r', c', ci', ri') \<Longrightarrow> set ri' \<subseteq> set ri"
  by (induction d r c ci ri rule: skip_filled.induct) (auto split: if_splits)

lemma upto_eq_Cons: "[a..b] = x # xs \<Longrightarrow> x = a \<and> xs = [a + 1..b] \<and> a \<le> b"
  by (subst (asm) upto.simps) (auto split: if_splits)

lemma skip_filled_col_iter:
  "skip_filled d r c ci ri = (b, r', c', ci', ri') \<Longrightarrow> ci = [c + 1..n - 1] \<Longrightarrow>
   ci' = [c' + 1..n - 1] \<and> c \<le> c' \<and> (c < n \<longrightarrow> c' < n)"
proof (induction d r c ci ri rule: skip_filled.induct)
  case (1 d r c next_c col_iter row_iter)
  from upto_eq_Cons[OF 1(3)[symmetric]]
  have "col_iter = [c + 1 + 1..n - 1]" "c + 1 < n" by auto
  with 1 show ?case by (auto split: if_splits)
next
  case (2 d r c next_r row_iter)
  then show ?case by (auto split: if_splits)
next
  case (3 d r c)
  then show ?case by (auto split: if_splits)
qed

lemma skip_empty_cols_exhausted:
  "skip_empty_cols t first rest = (cell, cells') \<Longrightarrow> is_col_empty t cell \<Longrightarrow> cells' = []"
  by (induction t first rest rule: skip_empty_cols.induct) (auto split: if_splits)

lemma drop_upto: "0 \<le> k \<Longrightarrow> drop (nat k) [a..b] = [a + k..b]"
proof (induction "nat k" arbitrary: k a)
  case 0
  then show ?case by simp
next
  case (Suc m)
  then have k: "nat k = Suc (nat (k - 1))" "m = nat (k - 1)" "0 \<le> k - 1" by auto
  show ?case
  proof (cases "a \<le> b")
    case True
    then have "[a..b] = a # [a + 1..b]" by (simp add: upto.simps)
    then show ?thesis using Suc(1)[OF k(2) k(3), of "a + 1"] k(1) by simp
  next
    case False
    then show ?thesis using Suc.prems by simp
  qed
qed

lemma cols_loop_replay:
  "cols_loop t st ncols r ri cells ci = (st', ncols', ri') \<Longrightarrow>
   fst st = replay (snd st) \<Longrightarrow> fst st' = replay (snd st')"
proof (induction t st ncols r ri cells ci rule: cols_loop_induct')
  case (finished t st ncols r ri cells)
  then show ?case by (simp add: cols_loop_done)
next
  case (no_cells t st ncols r ri c ci)
  then show ?case by (simp add: cols_loop_no_cells)
next
  case (empty_col t d placed ncols r ri first rest c ci cell cells')
  then show ?case by (simp add: cols_loop_empty_col)
next
  case (stop t d placed ncols r ri first rest c ci cell cells' r' c' ci' ri')
  then show ?case by (simp add: cols_loop_stop)
next
  case (place t d placed ncols r ri first rest c ci cell cells' r' c' ci' ri'' pl)
  have "place_cell d pl = replay (placed @ [pl])"
    using place.prems(2) by (simp add: replay_def)
  then show ?case
    using place.IH place.prems(1) cols_loop_place[OF place.hyps(1-4)] by simp
qed

lemma cols_loop_row_iter:
  "cols_loop t st ncols r ri cells ci = (st', ncols', ri') \<Longrightarrow> set ri' \<subseteq> set ri"
proof (induction t st ncols r ri cells ci rule: cols_loop_induct')
  case (finished t st ncols r ri cells)
  then show ?case by (simp add: cols_loop_done)
next
  case (no_cells t st ncols r ri c ci)
  then show ?case by (simp add: cols_loop_no_cells)
next
  case (empty_col t d placed ncols r ri first rest c ci cell cells')
  then show ?case by (simp add: cols_loop_empty_col)
next
  case (stop t d placed ncols r ri first rest c ci cell cells' r' c' ci' ri'')
  then show ?case using skip_filled_row_iter[OF stop.hyps(3)]
    by (auto simp: cols_loop_stop)
next
  case (place t d placed ncols r ri first rest c ci cell cells' r' c' ci' ri'' pl)
  then show ?case
    using skip_filled_row_iter[OF place.hyps(3)] cols_loop_place[OF place.hyps(1-4)]
    by auto
qed

lemma cols_loop_clamped:
  "cols_loop t st ncols r ri cells ci = (st', ncols', ri') \<Longrightarrow>
   n \<le> num_cols t \<Longrightarrow> ncols \<le> n \<Longrightarrow> (cells \<noteq> [] \<longrightarrow> ncols = n) \<Longrightarrow>
   (\<exists>a. 0 \<le> a \<and> ci = [a..n - 1]) \<Longrightarrow> list_all (clamped t) (snd st) \<Longrightarrow>
   list_all (clamped t) (snd st') \<and> ncols' \<le> n"
proof (induction t st ncols r ri cells ci rule: cols_loop_induct')
  case (finished t st ncols r ri cells)
  then show ?case by (simp add: cols_loop_done)
next
  case (no_cells t st ncols r ri c ci)
  from no_cells.prems(5) obtain a where a: "0 \<le> a" "c # ci = [a..n - 1]" by blast
  from upto_eq_Cons[OF a(2)[symmetric]] a(1) have "\<exists>a'. 0 \<le> a' \<and> ci = [a'..n - 1]"
    by (intro exI[of _ "a + 1"]) simp
  then show ?case using no_cells by (simp add: cols_loop_no_cells)
next
  case (empty_col t d placed ncols r ri first rest c ci cell cells')
  from empty_col.prems(5) obtain a where a: "0 \<le> a" "c # ci = [a..n - 1]" by blast
  from upto_eq_Cons[OF a(2)[symmetric]] a(1) have ci: "\<exists>a'. 0 \<le> a' \<and> ci = [a'..n - 1]"
    by (intro exI[of _ "a + 1"]) simp
  have "cells' = []" using skip_empty_cols_exhausted[OF empty_col.hyps(1,2)] .
  then show ?case
    using empty_col.IH empty_col.prems ci cols_loop_empty_col[OF empty_col.hyps(1,2)] by simp
next
  case (stop t d placed ncols r ri first rest c ci cell cells' r' c' ci' ri'')
  from stop.prems(5) obtain a where a: "0 \<le> a" "c # ci = [a..n - 1]" by blast
  from upto_eq_Cons[OF a(2)[symmetric]] have ca: "c = a" "ci = [c + 1..n - 1]" "c < n" by auto
  from skip_filled_col_iter[OF stop.hyps(3) ca(2)] ca a(1)
  have "\<exists>a'. 0 \<le> a' \<and> ci' = [a'..n - 1]" by (intro exI[of _ "c' + 1"]) simp
  then show ?case
    using stop.IH stop.prems cols_loop_stop[OF stop.hyps(1-3)] by simp
next
  case (place t d placed ncols r ri first rest c ci cell cells' r' c' ci' ri'' pl)
  from place.prems(5) obtain a where a: "0 \<le> a" "c # ci = [a..n - 1]" by blast
  from upto_eq_Cons[OF a(2)[symmetric]] have ca: "c = a" "ci = [c + 1..n - 1]" "c < n" by auto
  from skip_filled_col_iter[OF place.hyps(3) ca(2)] ca a(1)
  have c': "ci' = [c' + 1..n - 1]" "0 \<le> c'" "c' < n" by auto
  have nc: "ncols = n" using place.prems(4) by simp
  let ?k = "min (cell_colspan cell) ncols - 1"
  have "\<exists>a'. 0 \<le> a' \<and> drop (nat ?k) ci' = [a'..n - 1]"
  proof (cases "0 \<le> ?k")
    case True
    then show ?thesis using drop_upto[OF True, of "c' + 1" "n - 1"] c'
      by (intro exI[of _ "c' + 1 + ?k"]) simp
  next
    case False
    then have "nat ?k = 0" by linarith
    then have "drop (nat ?k) ci' = ci'" by (simp only: drop_0)
    then show ?thesis using c' by (intro exI[of _ "c' + 1"]) (simp only: , simp)
  qed
  moreover have "clamped t pl"
    using place.hyps(4) c' nc place.prems(2) by (auto simp: clamped_def)
  ultimately show ?case
    using place.IH place.prems cols_loop_place[OF place.hyps(1-4)] nc by simp
qed

subsection \<open>The loop over the rows\<close>

lemma py_index_in_range:
  "0 \<le> r \<Longrightarrow> r < int (length xs) \<Longrightarrow> py_index xs r = Inr (xs ! nat r)"
  by (simp add: py_index_def Let_def)

lemma rows_loop_invariants:
  "\<forall>r \<in> set ri. 0 \<le> r \<and> r < num_rows t \<Longrightarrow> ncols \<le> num_cols t \<Longrightarrow>
   fst st = replay (snd st) \<Longrightarrow> list_all (clamped t) (snd st) \<Longrightarrow>
   \<exists>st'. rows_loop t st ncols ri = Inr st' \<and> fst st' = replay (snd st')
          \<and> list_all (clamped t) (snd st')"
proof (induction t st ncols ri rule: rows_loop.induct)
  case (1 t st ncols)
  then show ?case by simp
next
  case (2 t st ncols r row_iter)
  let ?cells = "rows t ! nat r"
  have idx: "py_index (rows t) r = Inr ?cells"
    using "2.prems"(1) by (simp add: py_index_in_range num_rows_def)
  obtain st' ncols' ri' where cl: "cols_loop t st ncols r row_iter ?cells [0..ncols - 1] = (st', ncols', ri')"
    by (cases "cols_loop t st ncols r row_iter ?cells [0..ncols - 1]")
  have a: "fst st' = replay (snd st')" using cols_loop_replay[OF cl "2.prems"(3)] .
  have b: "set ri' \<subseteq> set row_iter" using cols_loop_row_iter[OF cl] .
  have c: "list_all (clamped t) (snd st') \<and> ncols' \<le> ncols"
    by (rule cols_loop_clamped[OF cl "2.prems"(2)]) (use "2.prems"(4) in auto)
  have "\<exists>st''. rows_loop t st' ncols' ri' = Inr st'' \<and> fst st'' = replay (snd st'')
          \<and> list_all (clamped t) (snd st'')"
    by (rule "2.IH"[OF idx cl[symmetric] refl]) (use a b c "2.prems" in auto)
  then show ?case using idx cl by simp
qed

lemma parse_table_trace_invariants:
  "\<exists>table_dict placed. parse_table_trace t = Inr (table_dict, placed)
      \<and> table_dict = replay placed \<and> list_all (clamped t) placed"
proof -
  have "\<exists>st'. rows_loop t ([], []) (num_cols t) [0..num_rows t - 1] = Inr st'
          \<and> fst st' = replay (snd st') \<and> list_all (clamped t) (snd st')"
    by (rule rows_loop_invariants) (auto simp: replay_def)
  then show ?thesis by (auto simp: parse_table_trace_def)
qed

text \<open>What one placement writes.\<close>

lemma map_of_fold_update:
  "map_of (fold (\<lambda>x d. AList.update (f x) v d) xs d) k
     = (if k \<in> f ` set xs then Some v else map_of d k)"
  by (induction xs arbitrary: d) (auto simp: update_conv')

lemma map_of_place_row:
  "map_of (place_row d r c cell colspan) k
     = (if fst k = r \<and> (snd k = c \<or> (c < snd k \<and> snd k < c + colspan)) then Some cell
        else map_of d k)"
proof -
  have "k \<in> (\<lambda>cs. (r, c + cs)) ` set [1..colspan - 1] \<longleftrightarrow>
        fst k = r \<and> c < snd k \<and> snd k < c + colspan"
    by (cases k) (auto simp: image_iff intro: bexI[of _ "snd k - c"])
  then show ?thesis
    unfolding place_row_def map_of_fold_update by (cases k) (auto simp: update_conv')
qed

lemma map_of_fold_place_row:
  "map_of (fold (\<lambda>rs d. place_row d (r + rs) c cell colspan) xs d) k
     = (if fst k - r \<in> set xs \<and> (snd k = c \<or> (c < snd k \<and> snd k < c + colspan)) then Some cell
        else map_of d k)"
proof (induction xs arbitrary: d)
  case Nil
  then show ?case by simp
next
  case (Cons x xs)
  have "fst k = r + x \<longleftrightarrow> fst k - r = x" by auto
  then show ?case by (simp add: Cons map_of_place_row)
qed

lemma map_of_place_cell:
  "map_of (place_cell d pl) k = (if covers pl k then Some (snd (snd (snd pl))) else map_of d k)"
proof -
  obtain r c rowspan colspan cell where pl: "pl = ((r, c), rowspan, colspan, cell)"
    by (cases pl) auto
  have rs: "fst k - r \<in> set [0..rowspan - 1] \<longleftrightarrow> r \<le> fst k \<and> fst k < r + rowspan" by auto
  show ?thesis
  proof (cases "colspan \<noteq> 1 \<or> rowspan \<noteq> 1")
    case True
    have "map_of (place_span d r c cell rowspan colspan) k
            = (if r \<le> fst k \<and> fst k < r + rowspan
                  \<and> (snd k = c \<or> (c < snd k \<and> snd k < c + colspan)) then Some cell
               else map_of d k)"
      unfolding place_span_def map_of_fold_place_row rs by (simp only: conj_assoc)
    then show ?thesis
      using True by (auto simp: pl place_cell_def covers_def)
  next
    case False
    then show ?thesis
      unfolding pl place_cell_def covers_def
      by (cases k) (auto simp: update_conv')
  qed
qed

lemma replay_snoc: "replay (placed @ [pl]) = place_cell (replay placed) pl"
  by (simp add: replay_def)

lemma replay_covered:
  "pl \<in> set placed \<Longrightarrow> covers pl k \<Longrightarrow> map_of (replay placed) k \<noteq> None"
proof (induction placed rule: rev_induct)
  case Nil
  then show ?case by simp
next
  case (snoc x xs)
  then show ?case by (auto simp: replay_snoc map_of_place_cell)
qed

lemma replay_last_writer:
  "covers pl k \<Longrightarrow> \<forall>pl' \<in> set after. \<not> covers pl' k \<Longrightarrow>
   map_of (replay (before @ pl # after)) k = Some (snd (snd (snd pl)))"
proof (induction after rule: rev_induct)
  case Nil
  then show ?case by (simp add: replay_snoc map_of_place_cell)
next
  case (snoc x xs)
  have "before @ pl # xs @ [x] = (before @ pl # xs) @ [x]" by simp
  then show ?case using snoc by (simp only: replay_snoc map_of_place_cell) auto
qed

text \<open>
  C1, as the code has it. A cell placed at \<open>(r, c)\<close> with clamped row-span \<open>R\<close> and col-span
  \<open>C\<close> leaves an entry at every \<open>(r + i, c + j)\<close> with \<open>0 \<le> i < R\<close> and \<open>0 \<le> j < C\<close> of the
  grid that \<open>parse_table\<close> returns, and the entry is that cell unless a cell placed later
  was written over the coordinate.
\<close>

theorem span_replication:
  assumes "parse_table_trace t = Inr (table_dict, placed)"
      and "placed = before @ ((r, c), rowspan, colspan, cell) # after"
      and "0 \<le> i" "i < rowspan" "0 \<le> j" "j < colspan"
  shows "map_of table_dict (r + i, c + j) \<noteq> None \<and>
         ((\<forall>pl \<in> set after. \<not> covers pl (r + i, c + j))
            \<longrightarrow> map_of table_dict (r + i, c + j) = Some cell)"
proof -
  let ?pl = "((r, c), rowspan, colspan, cell)"
  from parse_table_trace_invariants[of t] assms(1)
  have td: "table_dict = replay placed" by auto
  have cov: "covers ?pl (r + i, c + j)"
    using assms(3-6) by (auto simp: covers_def)
  have "?pl \<in> set placed" using assms(2) by simp
  from replay_covered[OF this cov] have 1: "map_of table_dict (r + i, c + j) \<noteq> None"
    by (simp add: td)
  have 2: "map_of table_dict (r + i, c + j) = Some cell"
    if "\<forall>pl \<in> set after. \<not> covers pl (r + i, c + j)"
    using replay_last_writer[OF cov that, of before] by (simp add: td assms(2))
  from 1 2 show ?thesis by blast
qed

theorem span_replication_witness:
  "(case parse_table span_table of
      Inr table_dict \<Rightarrow>
        map_of table_dict (2, 1) = Some tall_cell \<and> map_of table_dict (3, 1) = Some tall_cell
    | Inl e \<Rightarrow> False)"
proof -
  have tr: "parse_table_trace span_table = Inr (replay span_table_placed, span_table_placed)"
    by code_simp
  have sp: "span_table_placed
      = take 6 span_table_placed @ ((2, 1), 2, 1, tall_cell) # [((2, 2), 1, 1, form_cell 7 ''g'')]"
    by (simp add: span_table_placed_def)
  have nc: "\<forall>pl \<in> set [((2, 2), 1, 1, form_cell 7 ''g'')]. \<not> covers pl (2 + i, 1 + 0)" for i :: int
    by (simp add: covers_def)
  have a: "map_of (replay span_table_placed) (2 + 0, 1 + 0) = Some tall_cell"
    using span_replication [OF tr sp, of 0 0] nc[of 0] by simp
  have b: "map_of (replay span_table_placed) (2 + 1, 1 + 0) = Some tall_cell"
    using span_replication [OF tr sp, of 1 0] nc[of 1] by simp
  show ?thesis using a b by (simp add: parse_table_def tr)
qed

text \<open>
  A cell of row-span 2 placed at \<open>(0, 1)\<close> and, in the next row, a cell of col-span 2 placed
  at \<open>(1, 0)\<close>: the grid holds the second cell at \<open>(1, 1)\<close>.
\<close>

theorem span_overwritten_counterexample:
  "(case parse_table_trace overlap_table of
      Inr (table_dict, placed) \<Rightarrow>
        ((0, 1), 2, 1, tall_cell) \<in> set placed \<and>
        map_of table_dict (1, 1) = Some ((form_cell 2 ''b'')\<lparr>colspan_attr := Some 2\<rparr>)
    | Inl e \<Rightarrow> False)
   \<and> tall_cell \<noteq> (form_cell 2 ''b'')\<lparr>colspan_attr := Some 2\<rparr>"
  by code_simp




text \<open>
  C7. A header cell with the text \<open>Case\<close> that spans both rows of a table has no attribute
  named \<open>text\<close>, so \<open>is_col_empty\<close> holds for it: it is skipped, the next cell of the row takes
  its column, and the column count stays 2.
\<close>

theorem full_height_text_cell_skipped:
  "parse_table full_height_table
     = Inr [((0, 0), form_cell 1 ''kot''), ((1, 0), form_cell 2 ''kota'')]
   \<and> cell_rowspan case_header = num_rows full_height_table
   \<and> get_text case_header = ''Case''"
  by code_simp

end
